theory Spec2Isabelle
  imports Main "HOL-Library.Monad_Syntax" "HOL-Library.Sublist"
begin

section \<open>Python strings\<close>

text \<open>
  A Python \<^verbatim>\<open>str\<close> is a sequence of Unicode code points; slicing and \<^verbatim>\<open>len\<close> count
  code points. It is modelled as a list of natural numbers, one per code point, so that the
  character budgets of the source (\<^verbatim>\<open>[:4000]\<close>, \<^verbatim>\<open>[:6000]\<close>, \<^verbatim>\<open>[:500]\<close>) count what Python
  counts. \<open>str\<close> turns an ASCII literal of the source into such a list.
\<close>

type_synonym pystr = "nat list"

definition str :: "string \<Rightarrow> pystr" where
  "str s = map of_char s"

text \<open>
  \<^verbatim>\<open>str.isspace\<close> for one code point: the characters \<^verbatim>\<open>str.strip()\<close> removes when it is
  called without an argument (U+0009..U+000D, U+001C..U+0020, U+0085, U+00A0, U+1680,
  U+2000..U+200A, U+2028, U+2029, U+202F, U+205F, U+3000).
\<close>

definition isspace :: "nat \<Rightarrow> bool" where
  "isspace c \<longleftrightarrow>
     (9 \<le> c \<and> c \<le> 13) \<or> (28 \<le> c \<and> c \<le> 32) \<or> c = 133 \<or> c = 160 \<or> c = 5760 \<or>
     (8192 \<le> c \<and> c \<le> 8202) \<or> c = 8232 \<or> c = 8233 \<or> c = 8239 \<or> c = 8287 \<or> c = 12288"

definition lstrip :: "pystr \<Rightarrow> pystr" where
  "lstrip s = dropWhile isspace s"

definition rstrip :: "pystr \<Rightarrow> pystr" where
  "rstrip s = rev (dropWhile isspace (rev s))"

definition strip :: "pystr \<Rightarrow> pystr" where
  "strip s = rstrip (lstrip s)"

definition startswith :: "pystr \<Rightarrow> pystr \<Rightarrow> bool" where
  "startswith s p \<longleftrightarrow> take (length p) s = p"

text \<open>
  The slice \<^verbatim>\<open>s[i:-j]\<close> for non-negative \<open>i\<close> and \<open>j\<close>: the stop index is
  \<open>len(s) - j\<close>, clamped at 0, and the slice is empty when the start is not below it.
  Subtraction on \<open>nat\<close> truncates at 0, which is the clamp.
\<close>

definition slice_from_to_end_minus :: "pystr \<Rightarrow> nat \<Rightarrow> nat \<Rightarrow> pystr" where
  "slice_from_to_end_minus s i j = drop i (take (length s - j) s)"

text \<open>The test \<^verbatim>\<open>needle in haystack\<close> on two strings: a contiguous occurrence.\<close>

fun contains :: "pystr \<Rightarrow> pystr \<Rightarrow> bool" where
  "contains needle [] \<longleftrightarrow> needle = []"
| "contains needle (c # cs) \<longleftrightarrow> startswith (c # cs) needle \<or> contains needle cs"

section \<open>Prompt Builder: the prompt of \<^verbatim>\<open>analyze_with_openrouter\<close> (lines 324 to 433)\<close>

text \<open>
  The f-string of the source, cut at its two interpolations. The doubled braces of the
  f-string are single braces in the resulting text.
\<close>

definition prompt_head :: pystr where
  \<open>prompt_head = str (concat [
     ''You are an experienced educator and evaluation specialist tasked with rigorous assessment of academic work. Your analysis must be critical, comprehensive, and strictly adhere to the rubric criteria.\<newline>'',
     ''\<newline>'',
     ''**RUBRIC FOR EVALUATION:**\<newline>''])\<close>

definition prompt_middle :: pystr where
  \<open>prompt_middle = str (concat [
     ''\<newline>'',
     ''\<newline>'',
     ''**ASSIGNMENT SUBMISSION TO EVALUATE:**\<newline>''])\<close>

definition prompt_tail :: pystr where
  \<open>prompt_tail = str (concat [
     ''\<newline>'',
     ''\<newline>'',
     ''---\<newline>'',
     ''\<newline>'',
     ''## **EVALUATION INSTRUCTIONS:**\<newline>'',
     ''\<newline>'',
     ''### **1. STRICT ADHERENCE TO RUBRIC:**\<newline>'',
     ''- Evaluate EXCLUSIVELY based on the provided rubric criteria\<newline>'',
     ''- Do NOT introduce external standards or personal preferences\<newline>'',
     ''- Map EVERY piece of feedback directly to specific rubric criteria\<newline>'',
     ''\<newline>'',
     ''### **2. REQUIRED ANALYSIS COMPONENTS:**\<newline>'',
     ''\<newline>'',
     ''#### **A. QUANTITATIVE SCORING:**\<newline>'',
     ''- Score each rubric criterion separately on a scale of 0-100%\<newline>'',
     ''- Provide EXACT percentages, not ranges\<newline>'',
     ''- Calculate weighted overall score if rubric includes weightings\<newline>'',
     ''- Flag ANY criterion where score is below 70% as "Needs Significant Improvement"\<newline>'',
     ''\<newline>'',
     ''#### **B. QUALITATIVE FEEDBACK (MUST INCLUDE):**\<newline>'',
     ''- **Strengths Identified:** List 3-5 specific examples where criteria were met/exceeded\<newline>'',
     ''- **Deficiencies Found:** List 5-8 specific, actionable deficiencies with exact evidence from submission\<newline>'',
     ''- **Critical Analysis:** Explain WHY each deficiency constitutes a failure to meet rubric standards\<newline>'',
     ''- **Evidence-Based Assessment:** Include exact quotes/line numbers to support every claim\<newline>'',
     ''\<newline>'',
     ''#### **C. STRUCTURAL ANALYSIS:**\<newline>'',
     ''- **Organization Evaluation:** Assess logical flow, paragraph structure, transitions\<newline>'',
     ''- **Argumentation Analysis:** Evaluate thesis clarity, evidence quality, logical consistency\<newline>'',
     ''- **Technical Components:** Check formatting, citations, length compliance, technical accuracy\<newline>'',
     ''\<newline>'',
     ''#### **D. CRITICAL THINKING ASSESSMENT:**\<newline>'',
     ''- **Depth of Analysis:** Evaluate sophistication of thought, not just surface-level coverage\<newline>'',
     ''- **Originality Assessment:** Check for rote repetition vs. genuine insight\<newline>'',
     ''- **Synthesis Evaluation:** Assess integration of concepts, critical connections made\<newline>'',
     ''\<newline>'',
     ''### **3. REQUIRED FORMAT FOR RESPONSE:**\<newline>'',
     ''\<newline>'',
     ''Provide your analysis as a JSON object with this EXACT structure:\<newline>'',
     ''{\<newline>'',
     ''    "overall_score": 85,\<newline>'',
     ''    "overall_grade": "B",\<newline>'',
     ''    "criteria_breakdown": [\<newline>'',
     ''        {\<newline>'',
     ''            "criterion": "Criterion Name", \<newline>'',
     ''            "score_percentage": 80, \<newline>'',
     ''            "weight": 25,\<newline>'',
     ''            "strengths": ["Specific strength with evidence"],\<newline>'',
     ''            "deficiencies": ["Specific deficiency with exact quote"],\<newline>'',
     ''            "recommendations": ["Concrete action required"],\<newline>'',
     ''            "needs_improvement": true/false\<newline>'',
     ''        }\<newline>'',
     ''    ],\<newline>'',
     ''    "critical_deficiencies": [\<newline>'',
     ''        {\<newline>'',
     ''            "issue": "Specific critical issue",\<newline>'',
     ''            "evidence": "Exact quote/location",\<newline>'',
     ''            "priority": "high/medium/low",\<newline>'',
     ''            "remediation": "Step-by-step fix"\<newline>'',
     ''        }\<newline>'',
     ''    ],\<newline>'',
     ''    "strengths_to_build": [\<newline>'',
     ''        {\<newline>'',
     ''            "strength": "Specific strength",\<newline>'',
     ''            "evidence": "Exact quote/location",\<newline>'',
     ''            "reinforcement": "How to build on this"\<newline>'',
     ''        }\<newline>'',
     ''    ],\<newline>'',
     ''    "structural_analysis": {\<newline>'',
     ''        "organization": "Detailed assessment",\<newline>'',
     ''        "argument_development": "Specific evaluation",\<newline>'',
     ''        "technical_compliance": "Checklist results"\<newline>'',
     ''    },\<newline>'',
     ''    "revision_recommendations": {\<newline>'',
     ''        "high_priority": ["Exactly what to fix first"],\<newline>'',
     ''        "content_improvements": ["Specific content changes"],\<newline>'',
     ''        "structural_changes": ["Required reorganization"],\<newline>'',
     ''        "technical_fixes": ["Exact formatting fixes"]\<newline>'',
     ''    },\<newline>'',
     ''    "grade_justification": "Concise paragraph explaining score",\<newline>'',
     ''    "readiness_assessment": {\<newline>'',
     ''        "status": "Needs Major Revision",\<newline>'',
     ''        "estimated_revision_hours": 5,\<newline>'',
     ''        "key_barriers": ["Fundamental issue 1", "Fundamental issue 2"]\<newline>'',
     ''    },\<newline>'',
     ''    "summary": "Overall summary with actionable insights"\<newline>'',
     ''}\<newline>'',
     ''\<newline>'',
     ''### **4. EVALUATION PRINCIPLES TO ENFORCE:**\<newline>'',
     ''\<newline>'',
     ''- **Zero Tolerance for:** Plagiarism indicators, major factual errors, ignoring assignment requirements\<newline>'',
     ''- **High Standards for:** Critical thinking, original analysis, proper academic conventions\<newline>'',
     ''- **Evidence-Required:** Every criticism MUST reference specific submission content\<newline>'',
     ''- **Action-Oriented:** All feedback must enable immediate, concrete improvements\<newline>'',
     ''\<newline>'',
     ''### **5. FINAL REQUIREMENTS:**\<newline>'',
     ''\<newline>'',
     ''- Do NOT give participation trophies or inflated scores\<newline>'',
     ''- Do NOT hesitate to give low scores when warranted by rubric\<newline>'',
     ''- Do NOT provide vague feedback - be brutally specific\<newline>'',
     ''- DO highlight both excellence and failure with equal specificity\<newline>'',
     ''- DO maintain professional, constructive but uncompromising tone\<newline>'',
     ''\<newline>'',
     ''**BEGIN EVALUATION NOW. Be meticulous, critical, and evidence-based in your assessment.**\<newline>''])\<close>

definition build_prompt :: "pystr \<Rightarrow> pystr \<Rightarrow> pystr" where
  "build_prompt assignment_text rubric_text =
     prompt_head @ take 4000 rubric_text @ prompt_middle @ take 6000 assignment_text @ prompt_tail"

section \<open>Cleaning a successful reply (lines 459 to 466)\<close>

definition fence_json :: pystr where
  "fence_json = str ''```json''"

definition fence :: pystr where
  "fence = str ''```''"

definition clean_response :: "pystr \<Rightarrow> pystr" where
  "clean_response content =
     (let ai_response = strip content in
      if startswith ai_response fence_json
        then strip (slice_from_to_end_minus ai_response 7 3)
      else if startswith ai_response fence
        then strip (slice_from_to_end_minus ai_response 3 3)
      else ai_response)"

text \<open>The two fenced forms of a reply \<open>x\<close>: with and without the language tag.\<close>

definition fenced_json :: "pystr \<Rightarrow> pystr" where
  "fenced_json x = fence_json @ [10] @ x @ [10] @ fence"

definition fenced :: "pystr \<Rightarrow> pystr" where
  "fenced x = fence @ [10] @ x @ [10] @ fence"


section \<open>JSON values and Python's \<^verbatim>\<open>json\<close> module\<close>

text \<open>
  What \<^verbatim>\<open>json.loads\<close> returns: \<^verbatim>\<open>None\<close>, a \<^verbatim>\<open>bool\<close>, an unbounded \<^verbatim>\<open>int\<close>, a
  \<^verbatim>\<open>float\<close>, a \<^verbatim>\<open>str\<close>, a \<^verbatim>\<open>list\<close> or a \<^verbatim>\<open>dict\<close> with string keys. A dictionary is
  an association list in insertion order with distinct keys.

  Floating point is not modelled: a float is kept as the decimal number written in the
  document, \<open>Dec m e\<close> standing for \<open>m * 10 ^ e\<close>, without the rounding to binary64.
\<close>

datatype pyfloat = Dec int int | NaN | Inf bool

datatype json =
    JNull
  | JBool bool
  | JInt int
  | JFloat pyfloat
  | JStr pystr
  | JList "json list"
  | JObj "(pystr \<times> json) list"

text \<open>\<^verbatim>\<open>d[k] = v\<close>: an existing key keeps its position, a new key goes to the end.\<close>

fun dict_set :: "pystr \<Rightarrow> json \<Rightarrow> (pystr \<times> json) list \<Rightarrow> (pystr \<times> json) list" where
  "dict_set k v [] = [(k, v)]"
| "dict_set k v ((k', v') # kvs) =
     (if k = k' then (k', v) # kvs else (k', v') # dict_set k v kvs)"

definition dict_of_pairs :: "(pystr \<times> json) list \<Rightarrow> (pystr \<times> json) list" where
  "dict_of_pairs pairs = foldl (\<lambda>d kv. dict_set (fst kv) (snd kv) d) [] pairs"

subsection \<open>\<^verbatim>\<open>json.loads\<close>\<close>

text \<open>
  The decoder of the standard library, in its default (strict) mode on a \<^verbatim>\<open>str\<close>:
  whitespace is space, tab, line feed and carriage return; a number is the longest match
  of \<^verbatim>\<open>-?(0|[1-9][0-9]*)(\.[0-9]+)?([eE][-+]?[0-9]+)?\<close>; \<^verbatim>\<open>NaN\<close>, \<^verbatim>\<open>Infinity\<close> and
  \<^verbatim>\<open>-Infinity\<close> are accepted; a string may not hold a control character below U+0020;
  a \<^verbatim>\<open>\uXXXX\<close> escape of a high surrogate followed by one of a low surrogate is one code
  point; the last of several equal keys wins; anything after the value but whitespace is
  an error.

  \<^verbatim>\<open>json.loads\<close> raises three exceptions on a \<^verbatim>\<open>str\<close>. \<^verbatim>\<open>JSONDecodeError\<close> is the syntax
  error. \<^verbatim>\<open>RecursionError\<close> is raised on entering an array or an object nested deeper than
  the interpreter allows at the point of the call; the scanner asks before it looks
  inside, so an empty array counts. \<^verbatim>\<open>ValueError\<close> is raised by the conversion of an
  integer literal (a number without fraction and exponent) of more digits than
  \<^verbatim>\<open>sys.get_int_max_str_digits()\<close>, which is 4300 unless changed and 0 for no limit (a
  setting between 1 and 639 is refused by the interpreter). The text is read from left
  to right and the first exception ends the call. Both limits are parameters of the
  model: \<open>max_digits\<close>, and \<open>depth\<close> for the number of containers that may still be open
  at once.
\<close>

datatype json_error = JSONDecodeError | RecursionError | ValueError

definition is_ws :: "nat \<Rightarrow> bool" where
  "is_ws c \<longleftrightarrow> c = 32 \<or> c = 9 \<or> c = 10 \<or> c = 13"

definition skip_ws :: "pystr \<Rightarrow> pystr" where
  "skip_ws s = dropWhile is_ws s"

definition is_digit :: "nat \<Rightarrow> bool" where
  "is_digit c \<longleftrightarrow> 48 \<le> c \<and> c \<le> 57"

definition hex_digit :: "nat \<Rightarrow> nat option" where
  "hex_digit c =
     (if 48 \<le> c \<and> c \<le> 57 then Some (c - 48)
      else if 97 \<le> c \<and> c \<le> 102 then Some (c - 87)
      else if 65 \<le> c \<and> c \<le> 70 then Some (c - 55)
      else None)"

fun hex4 :: "pystr \<Rightarrow> (nat \<times> pystr) option" where
  "hex4 (a # b # c # d # r) =
     (case (hex_digit a, hex_digit b, hex_digit c, hex_digit d) of
        (Some x, Some y, Some z, Some w) \<Rightarrow> Some (((x * 16 + y) * 16 + z) * 16 + w, r)
      | _ \<Rightarrow> None)"
| "hex4 _ = None"

definition simple_escape :: "nat \<Rightarrow> nat option" where
  "simple_escape e =
     (if e = 34 then Some 34 else if e = 92 then Some 92 else if e = 47 then Some 47
      else if e = 98 then Some 8 else if e = 102 then Some 12 else if e = 110 then Some 10
      else if e = 114 then Some 13 else if e = 116 then Some 9 else None)"

text \<open>
  The body of a string, after its opening quote: the decoded text and what follows the
  closing quote. 34 is the quote, 92 the backslash, 117 the letter u.
\<close>

function scanstring :: "pystr \<Rightarrow> pystr \<Rightarrow> (pystr \<times> pystr) option" where
  "scanstring acc [] = None"
| "scanstring acc (c # cs) =
     (if c = 34 then Some (rev acc, cs)
      else if c = 92 then
        (case cs of
           [] \<Rightarrow> None
         | e # r \<Rightarrow>
             if e = 117 then
               (case hex4 r of
                  None \<Rightarrow> None
                | Some (u, r1) \<Rightarrow>
                    if 55296 \<le> u \<and> u \<le> 56319 \<and> take 2 r1 = [92, 117] then
                      (case hex4 (drop 2 r1) of
                         None \<Rightarrow> None
                       | Some (u2, r2) \<Rightarrow>
                           if 56320 \<le> u2 \<and> u2 \<le> 57343
                           then scanstring ((65536 + (u - 55296) * 1024 + (u2 - 56320)) # acc) r2
                           else scanstring (u # acc) r1)
                    else scanstring (u # acc) r1)
             else (case simple_escape e of
                     None \<Rightarrow> None
                   | Some x \<Rightarrow> scanstring (x # acc) r))
      else if c < 32 then None
      else scanstring (c # acc) cs)"
  by pat_completeness auto
termination
proof -
  have shorter: "length r < length s" if "hex4 s = Some (u, r)" for s u r
    using that by (induction s rule: hex4.induct) (auto split: option.splits)
  show ?thesis
    by (relation "measure (\<lambda>(acc, s). length s)") (auto dest!: shorter)
qed

definition digits_val :: "pystr \<Rightarrow> nat" where
  "digits_val ds = foldl (\<lambda>a d. 10 * a + (d - 48)) 0 ds"

definition int_part :: "pystr \<Rightarrow> (pystr \<times> pystr) option" where
  "int_part s =
     (case s of
        [] \<Rightarrow> None
      | c # cs \<Rightarrow>
          if c = 48 then Some ([c], cs)
          else if 49 \<le> c \<and> c \<le> 57 then Some (c # takeWhile is_digit cs, dropWhile is_digit cs)
          else None)"

definition digits1 :: "pystr \<Rightarrow> (pystr \<times> pystr) option" where
  "digits1 s =
     (case s of
        [] \<Rightarrow> None
      | d # r \<Rightarrow>
          if is_digit d then Some (d # takeWhile is_digit r, dropWhile is_digit r) else None)"

definition frac_part :: "pystr \<Rightarrow> (pystr \<times> pystr) option" where
  "frac_part s = (case s of [] \<Rightarrow> None | c # r \<Rightarrow> if c = 46 then digits1 r else None)"

definition exp_part :: "pystr \<Rightarrow> (int \<times> pystr) option" where
  "exp_part s =
     (case s of
        [] \<Rightarrow> None
      | c # r \<Rightarrow>
          if c = 101 \<or> c = 69 then
            (case r of
               [] \<Rightarrow> None
             | sg # r' \<Rightarrow>
                 if sg = 45 then map_option (\<lambda>(ds, t). (- int (digits_val ds), t)) (digits1 r')
                 else if sg = 43 then map_option (\<lambda>(ds, t). (int (digits_val ds), t)) (digits1 r')
                 else map_option (\<lambda>(ds, t). (int (digits_val ds), t)) (digits1 r))
          else None)"

definition match_number :: "pystr \<Rightarrow> (json \<times> pystr) option" where
  "match_number s =
     (let (neg, s1) = (case s of [] \<Rightarrow> (False, s) | c # r \<Rightarrow> if c = 45 then (True, r) else (False, s))
      in case int_part s1 of
        None \<Rightarrow> None
      | Some (ip, s2) \<Rightarrow>
          let (fp, s3) = (case frac_part s2 of Some (ds, t) \<Rightarrow> (Some ds, t) | None \<Rightarrow> (None, s2));
              (ep, s4) = (case exp_part s3 of Some (e, t) \<Rightarrow> (Some e, t) | None \<Rightarrow> (None, s3));
              sgn = (if neg then - 1 else 1)
          in if fp = None \<and> ep = None then Some (JInt (sgn * int (digits_val ip)), s4)
             else
               let fd = (case fp of Some ds \<Rightarrow> ds | None \<Rightarrow> []);
                   e = (case ep of Some x \<Rightarrow> x | None \<Rightarrow> 0)
               in Some (JFloat (Dec (sgn * int (digits_val (ip @ fd))) (e - int (length fd))), s4))"

definition literal :: "string \<Rightarrow> json \<Rightarrow> pystr \<Rightarrow> (json \<times> pystr) option" where
  "literal w v s = (if startswith s (str w) then Some (v, drop (length w) s) else None)"

text \<open>
  The number of digits of the integer part of the number a text starts with, and the
  test of the interpreter's limit on it.
\<close>

definition int_digits :: "pystr \<Rightarrow> nat" where
  "int_digits s =
     (case int_part (case s of [] \<Rightarrow> s | c # r \<Rightarrow> if c = 45 then r else s) of
        Some (ip, r) \<Rightarrow> length ip
      | None \<Rightarrow> 0)"

definition too_long :: "nat \<Rightarrow> nat \<Rightarrow> bool" where
  "too_long max_digits n \<longleftrightarrow> 0 < max_digits \<and> max_digits < n"

text \<open>A failed match is a syntax error.\<close>

definition decoded :: "'a option \<Rightarrow> json_error + 'a" where
  "decoded x = (case x of Some y \<Rightarrow> Inr y | None \<Rightarrow> Inl JSONDecodeError)"

definition scan_atom :: "nat \<Rightarrow> pystr \<Rightarrow> json_error + (json \<times> pystr)" where
  "scan_atom max_digits s =
     (if startswith s (str ''null'') then decoded (literal ''null'' JNull s)
      else if startswith s (str ''true'') then decoded (literal ''true'' (JBool True) s)
      else if startswith s (str ''false'') then decoded (literal ''false'' (JBool False) s)
      else (case match_number s of
              Some (v, r) \<Rightarrow>
                (case v of
                   JInt i \<Rightarrow>
                     if too_long max_digits (int_digits s) then Inl ValueError else Inr (v, r)
                 | _ \<Rightarrow> Inr (v, r))
            | None \<Rightarrow>
                if startswith s (str ''NaN'') then decoded (literal ''NaN'' (JFloat NaN) s)
                else if startswith s (str ''Infinity'')
                  then decoded (literal ''Infinity'' (JFloat (Inf True)) s)
                else decoded (literal ''-Infinity'' (JFloat (Inf False)) s)))"

definition expect :: "nat \<Rightarrow> pystr \<Rightarrow> pystr option" where
  "expect x s = (case s of [] \<Rightarrow> None | c # r \<Rightarrow> if c = x then Some r else None)"

text \<open>
  The recursive descent over values, arrays and objects. The first argument bounds the
  number of calls; \<open>json_loads\<close> starts with more than the text can use, since every
  call but the first follows a character that is consumed. \<open>scan_array\<close> and
  \<open>scan_object\<close> start at an element and at a key, with the earlier ones in reverse;
  their \<open>depth\<close> is what is left for the elements.
\<close>

fun scan_once :: "nat \<Rightarrow> nat \<Rightarrow> nat \<Rightarrow> pystr \<Rightarrow> json_error + (json \<times> pystr)"
  and scan_array :: "nat \<Rightarrow> nat \<Rightarrow> nat \<Rightarrow> json list \<Rightarrow> pystr \<Rightarrow> json_error + (json \<times> pystr)"
  and scan_object ::
    "nat \<Rightarrow> nat \<Rightarrow> nat \<Rightarrow> (pystr \<times> json) list \<Rightarrow> pystr \<Rightarrow> json_error + (json \<times> pystr)"
where
  "scan_once 0 max_digits depth s = Inl JSONDecodeError"
| "scan_once (Suc n) max_digits depth s =
     (case s of
        [] \<Rightarrow> Inl JSONDecodeError
      | c # cs \<Rightarrow>
          if c = 34 then
            (case scanstring [] cs of
               None \<Rightarrow> Inl JSONDecodeError
             | Some (x, r) \<Rightarrow> Inr (JStr x, r))
          else if c = 123 then
            (case depth of
               0 \<Rightarrow> Inl RecursionError
             | Suc d \<Rightarrow>
                 (case expect 125 (skip_ws cs) of
                    Some r \<Rightarrow> Inr (JObj [], r)
                  | None \<Rightarrow> scan_object n max_digits d [] (skip_ws cs)))
          else if c = 91 then
            (case depth of
               0 \<Rightarrow> Inl RecursionError
             | Suc d \<Rightarrow>
                 (case expect 93 (skip_ws cs) of
                    Some r \<Rightarrow> Inr (JList [], r)
                  | None \<Rightarrow> scan_array n max_digits d [] (skip_ws cs)))
          else scan_atom max_digits s)"
| "scan_array 0 max_digits depth acc s = Inl JSONDecodeError"
| "scan_array (Suc n) max_digits depth acc s =
     (case scan_once n max_digits depth s of
        Inl e \<Rightarrow> Inl e
      | Inr (v, r) \<Rightarrow>
          (case expect 93 (skip_ws r) of
             Some r' \<Rightarrow> Inr (JList (rev (v # acc)), r')
           | None \<Rightarrow>
               (case expect 44 (skip_ws r) of
                  Some r' \<Rightarrow> scan_array n max_digits depth (v # acc) (skip_ws r')
                | None \<Rightarrow> Inl JSONDecodeError)))"
| "scan_object 0 max_digits depth acc s = Inl JSONDecodeError"
| "scan_object (Suc n) max_digits depth acc s =
     (case expect 34 s of
        None \<Rightarrow> Inl JSONDecodeError
      | Some s1 \<Rightarrow>
          (case scanstring [] s1 of
             None \<Rightarrow> Inl JSONDecodeError
           | Some (key, s2) \<Rightarrow>
               (case expect 58 (skip_ws s2) of
                  None \<Rightarrow> Inl JSONDecodeError
                | Some s3 \<Rightarrow>
                    (case scan_once n max_digits depth (skip_ws s3) of
                       Inl e \<Rightarrow> Inl e
                     | Inr (v, r) \<Rightarrow>
                         (case expect 125 (skip_ws r) of
                            Some r' \<Rightarrow> Inr (JObj (dict_of_pairs (rev ((key, v) # acc))), r')
                          | None \<Rightarrow>
                              (case expect 44 (skip_ws r) of
                                 Some r' \<Rightarrow>
                                   scan_object n max_digits depth ((key, v) # acc) (skip_ws r')
                               | None \<Rightarrow> Inl JSONDecodeError))))))"

definition json_loads :: "nat \<Rightarrow> nat \<Rightarrow> pystr \<Rightarrow> json_error + json" where
  "json_loads max_digits depth s =
     (case scan_once (2 * length s + 2) max_digits depth (skip_ws s) of
        Inl e \<Rightarrow> Inl e
      | Inr (v, r) \<Rightarrow> if skip_ws r = [] then Inr v else Inl JSONDecodeError)"

subsection \<open>\<^verbatim>\<open>json.dumps\<close>\<close>

text \<open>
  The encoder with its default arguments: items separated by a comma and a space, keys
  from values by a colon and a space, and every character outside U+0020..U+007E, the
  quote and the backslash escaped. The source serialises one dictionary, the fallback of
  lines 471 to 548, which holds no float and no integer above 100; for completeness a
  float is written in the notation \<open>m\<close>e\<open>e\<close>, which is not Python's \<^verbatim>\<open>repr\<close>, and the digit
  limit of the interpreter, which \<^verbatim>\<open>json.dumps\<close> meets on an integer as \<^verbatim>\<open>json.loads\<close>
  does, is left out.
\<close>

definition hex_char :: "nat \<Rightarrow> nat" where
  "hex_char d = (if d < 10 then 48 + d else 87 + d)"

definition u_escape :: "nat \<Rightarrow> pystr" where
  "u_escape u =
     [92, 117, hex_char (u div 4096 mod 16), hex_char (u div 256 mod 16),
      hex_char (u div 16 mod 16), hex_char (u mod 16)]"

definition escape_char :: "nat \<Rightarrow> pystr" where
  "escape_char c =
     (if c = 34 then [92, 34] else if c = 92 then [92, 92]
      else if c = 10 then [92, 110] else if c = 13 then [92, 114] else if c = 9 then [92, 116]
      else if c = 8 then [92, 98] else if c = 12 then [92, 102]
      else if 32 \<le> c \<and> c \<le> 126 then [c]
      else if c < 65536 then u_escape c
      else u_escape (55296 + (c - 65536) div 1024) @ u_escape (56320 + (c - 65536) mod 1024))"

definition encode_string :: "pystr \<Rightarrow> pystr" where
  "encode_string s = [34] @ concat (map escape_char s) @ [34]"

function repr_nat :: "nat \<Rightarrow> pystr" where
  "repr_nat n = (if n < 10 then [48 + n] else repr_nat (n div 10) @ [48 + n mod 10])"
  by pat_completeness auto
termination
  by (relation "measure id") auto

declare repr_nat.simps [simp del]

definition repr_int :: "int \<Rightarrow> pystr" where
  "repr_int i = (if i < 0 then 45 # repr_nat (nat (- i)) else repr_nat (nat i))"

fun join :: "pystr \<Rightarrow> pystr list \<Rightarrow> pystr" where
  "join sep [] = []"
| "join sep [x] = x"
| "join sep (x # y # ys) = x @ sep @ join sep (y # ys)"

fun json_dumps :: "json \<Rightarrow> pystr" where
  "json_dumps JNull = str ''null''"
| "json_dumps (JBool b) = (if b then str ''true'' else str ''false'')"
| "json_dumps (JInt i) = repr_int i"
| "json_dumps (JFloat f) =
     (case f of
        NaN \<Rightarrow> str ''NaN''
      | Inf b \<Rightarrow> (if b then str ''Infinity'' else str ''-Infinity'')
      | Dec m e \<Rightarrow> repr_int m @ [101] @ repr_int e)"
| "json_dumps (JStr s) = encode_string s"
| "json_dumps (JList xs) = [91] @ join (str '', '') (map json_dumps xs) @ [93]"
| "json_dumps (JObj kvs) =
     [123] @
     join (str '', '')
       (map (\<lambda>kv. encode_string (fst kv) @ str '': '' @ json_dumps (snd kv)) kvs) @
     [125]"


text \<open>One item of a dictionary as \<open>json_dumps\<close> writes it.\<close>

definition enc_item :: "pystr \<times> json \<Rightarrow> pystr" where
  "enc_item kv = encode_string (fst kv) @ str '': '' @ json_dumps (snd kv)"

subsection \<open>Values that survive \<^verbatim>\<open>json.loads(json.dumps(v))\<close>\<close>

text \<open>
  A sufficient condition for a value to be read back as it was written: no float, strings
  of printable ASCII and the five control characters with a short escape, distinct keys.
\<close>

definition plain_char :: "nat \<Rightarrow> bool" where
  "plain_char c \<longleftrightarrow> (32 \<le> c \<and> c \<le> 126) \<or> c = 8 \<or> c = 9 \<or> c = 10 \<or> c = 12 \<or> c = 13"

fun plain_json :: "json \<Rightarrow> bool" where
  "plain_json JNull \<longleftrightarrow> True"
| "plain_json (JBool b) \<longleftrightarrow> True"
| "plain_json (JInt i) \<longleftrightarrow> True"
| "plain_json (JFloat f) \<longleftrightarrow> False"
| "plain_json (JStr s) \<longleftrightarrow> list_all plain_char s"
| "plain_json (JList xs) \<longleftrightarrow> list_all plain_json xs"
| "plain_json (JObj kvs) \<longleftrightarrow>
     distinct (map fst kvs) \<and>
     list_all (\<lambda>kv. list_all plain_char (fst kv) \<and> plain_json (snd kv)) kvs"

text \<open>
  A value within the limits of the interpreter: no integer of too many digits, and no
  nesting deeper than \<open>depth\<close>.
\<close>

fun fits :: "nat \<Rightarrow> nat \<Rightarrow> json \<Rightarrow> bool" where
  "fits max_digits depth (JInt i) \<longleftrightarrow> \<not> too_long max_digits (length (repr_nat (nat \<bar>i\<bar>)))"
| "fits max_digits depth (JList xs) \<longleftrightarrow>
     0 < depth \<and> list_all (fits max_digits (depth - 1)) xs"
| "fits max_digits depth (JObj kvs) \<longleftrightarrow>
     0 < depth \<and> list_all (\<lambda>kv. fits max_digits (depth - 1) (snd kv)) kvs"
| "fits max_digits depth v \<longleftrightarrow> True"

text \<open>
  What may follow a value inside a document that \<open>json_dumps\<close> wrote: nothing, a comma,
  or a closing bracket or brace.
\<close>

definition delim :: "pystr \<Rightarrow> bool" where
  "delim rest \<longleftrightarrow> rest = [] \<or> hd rest = 44 \<or> hd rest = 93 \<or> hd rest = 125"

section \<open>Python operations on JSON values\<close>

text \<open>
  Each operation the source applies to a value read from a report, with the exception
  Python raises as \<open>None\<close>. Nothing inside \<^verbatim>\<open>generate_pdf_report\<close> catches an exception,
  so the first one ends the call.
\<close>

text \<open>Truth value of an object, as \<^verbatim>\<open>if\<close>, \<^verbatim>\<open>and\<close> and \<^verbatim>\<open>not\<close> take it.\<close>

fun truthy :: "json \<Rightarrow> bool" where
  "truthy JNull \<longleftrightarrow> False"
| "truthy (JBool b) \<longleftrightarrow> b"
| "truthy (JInt i) \<longleftrightarrow> i \<noteq> 0"
| "truthy (JFloat f) \<longleftrightarrow> (case f of Dec m e \<Rightarrow> m \<noteq> 0 | _ \<Rightarrow> True)"
| "truthy (JStr s) \<longleftrightarrow> s \<noteq> []"
| "truthy (JList xs) \<longleftrightarrow> xs \<noteq> []"
| "truthy (JObj kvs) \<longleftrightarrow> kvs \<noteq> []"

text \<open>\<^verbatim>\<open>d.get(k, default)\<close>: only a dictionary has the method (else \<^verbatim>\<open>AttributeError\<close>).\<close>

definition dict_get :: "json \<Rightarrow> pystr \<Rightarrow> json \<Rightarrow> json option" where
  "dict_get d k dflt =
     (case d of
        JObj kvs \<Rightarrow> Some (case map_of kvs k of Some v \<Rightarrow> v | None \<Rightarrow> dflt)
      | _ \<Rightarrow> None)"

text \<open>
  \<^verbatim>\<open>d[k]\<close> with a string key: \<^verbatim>\<open>KeyError\<close> on a dictionary without the key,
  \<^verbatim>\<open>TypeError\<close> on anything that is not a dictionary.
\<close>

definition subscript :: "json \<Rightarrow> pystr \<Rightarrow> json option" where
  "subscript d k = (case d of JObj kvs \<Rightarrow> map_of kvs k | _ \<Rightarrow> None)"

text \<open>\<^verbatim>\<open>x[0]\<close>: a dictionary decoded from JSON has no integer key.\<close>

fun subscript0 :: "json \<Rightarrow> json option" where
  "subscript0 (JList (x # xs)) = Some x"
| "subscript0 (JStr (c # cs)) = Some (JStr [c])"
| "subscript0 _ = None"

fun py_len :: "json \<Rightarrow> nat option" where
  "py_len (JStr s) = Some (length s)"
| "py_len (JList xs) = Some (length xs)"
| "py_len (JObj kvs) = Some (length kvs)"
| "py_len _ = None"

text \<open>
  The items a \<^verbatim>\<open>for\<close> loop visits: the elements of a list, the characters of a string,
  the keys of a dictionary.
\<close>

fun py_iter :: "json \<Rightarrow> json list option" where
  "py_iter (JList xs) = Some xs"
| "py_iter (JStr s) = Some (map (\<lambda>c. JStr [c]) s)"
| "py_iter (JObj kvs) = Some (map (\<lambda>kv. JStr (fst kv)) kvs)"
| "py_iter _ = None"

text \<open>
  \<^verbatim>\<open>x >= n\<close> for an integer constant \<open>n\<close>: defined on numbers (a \<^verbatim>\<open>bool\<close> is 0 or 1),
  \<^verbatim>\<open>TypeError\<close> on the rest.
\<close>

fun ge_int :: "json \<Rightarrow> int \<Rightarrow> bool option" where
  "ge_int (JInt i) n = Some (n \<le> i)"
| "ge_int (JBool b) n = Some (n \<le> (if b then 1 else 0))"
| "ge_int (JFloat f) n =
     (case f of
        NaN \<Rightarrow> Some False
      | Inf b \<Rightarrow> Some b
      | Dec m e \<Rightarrow> Some (if 0 \<le> e then n \<le> m * 10 ^ nat e else n * 10 ^ nat (- e) \<le> m))"
| "ge_int _ n = None"

text \<open>
  \<^verbatim>\<open>needle in x\<close> for a string \<open>needle\<close>: a substring test on a string, membership in a
  list, a key test on a dictionary, \<^verbatim>\<open>TypeError\<close> on the rest.
\<close>

fun str_in :: "pystr \<Rightarrow> json \<Rightarrow> bool option" where
  "str_in needle (JStr s) = Some (contains needle s)"
| "str_in needle (JList xs) = Some (JStr needle \<in> set xs)"
| "str_in needle (JObj kvs) = Some (needle \<in> fst ` set kvs)"
| "str_in needle _ = None"

section \<open>Report Renderer: \<^verbatim>\<open>generate_pdf_report\<close> (lines 48 to 318)\<close>

text \<open>
  The function builds the list \<^verbatim>\<open>story\<close> of reportlab flowables and hands it to
  \<^verbatim>\<open>doc.build\<close>. The model is the story: which flowables are appended, in which order,
  with which text. The text of a paragraph is kept as the pieces of its f-string, so that
  Python's \<^verbatim>\<open>str()\<close> of an interpolated value, \<^verbatim>\<open>str.upper\<close> and the hexadecimal name of
  a colour need no model.

  Two failures of reportlab are outside the model. The \<^verbatim>\<open>Paragraph\<close> constructor parses its
  text as markup and raises \<^verbatim>\<open>ValueError\<close> on a text it cannot parse, such as a report text
  holding the unbalanced tag \<^verbatim>\<open><b>\<close>; and \<^verbatim>\<open>doc.build\<close> (line 312) raises \<^verbatim>\<open>LayoutError\<close> on a
  flowable that fits no page. A result \<open>Some story\<close> says that the Python code around
  reportlab raises nothing and that this is the story it hands over; \<open>None\<close> says that
  this code raises. So a lemma that concludes \<open>Some story\<close> for every well-typed report
  speaks of the Python code alone; what the renderer writes is stated on the functions
  that choose a band or a colour, and at reports whose texts hold no markup.
\<close>

datatype style = title_style | subtitle_style | heading_style | subheading_style | normal_style

datatype color = green | orange | red

datatype piece =
    Lit pystr
  | Val json
  | Num nat
  | Upper pystr
  | HexVal color

datatype flowable =
    Paragraph "piece list" style
  | Spacer int int
  | PageBreak
  | Table "piece list list list"

text \<open>
  What the function reads besides the report: the clock, formatted for the table and
  for the footer, and the first eight characters of a fresh UUID.
\<close>

record env =
  now_table :: pystr
  now_footer :: pystr
  uuid8 :: pystr

text \<open>
  \<^verbatim>\<open>Paragraph(text, style)\<close> where \<open>text\<close> is a value of the report itself and not an
  f-string: reportlab splits the text into lines, which only a string allows.
\<close>

fun paragraph_of :: "json \<Rightarrow> style \<Rightarrow> flowable option" where
  "paragraph_of (JStr s) st = Some (Paragraph [Lit s] st)"
| "paragraph_of _ st = None"

text \<open>The body of a \<^verbatim>\<open>for\<close> loop run on every item, the first exception ending all.\<close>

fun for_each :: "('a \<Rightarrow> flowable list option) \<Rightarrow> 'a list \<Rightarrow> flowable list option" where
  "for_each body [] = Some []"
| "for_each body (x # xs) =
     do { fs \<leftarrow> body x; gs \<leftarrow> for_each body xs; Some (fs @ gs) }"

text \<open>The guard \<^verbatim>\<open>d.get(k) and len(d[k]) > 0\<close>.\<close>

definition present_nonempty :: "json \<Rightarrow> pystr \<Rightarrow> bool option" where
  "present_nonempty d k =
     do {
       v \<leftarrow> dict_get d k JNull;
       if truthy v then do { w \<leftarrow> subscript d k; n \<leftarrow> py_len w; Some (0 < n) }
       else Some False
     }"

text \<open>
  The bullet of the source file as it stands, U+201A U+00C4 U+00A2 and a space (a
  wrongly decoded U+2022), and the loop \<^verbatim>\<open>for item in d[k]\<close> that writes one bullet
  paragraph per item.
\<close>

definition bullet :: pystr where
  "bullet = [8218, 196, 162, 32]"

definition bullets :: "json \<Rightarrow> pystr \<Rightarrow> flowable list option" where
  "bullets d k =
     do {
       w \<leftarrow> subscript d k;
       items \<leftarrow> py_iter w;
       Some (map (\<lambda>item. Paragraph [Lit bullet, Val item] normal_style) items)
     }"

subsection \<open>Title page (lines 102 to 137)\<close>

definition title_block :: "env \<Rightarrow> json \<Rightarrow> flowable list option" where
  \<open>title_block e report_data =
     do {
       assignment \<leftarrow> dict_get report_data (str ''assignment'') (JStr (str ''N/A''));
       rubric \<leftarrow> dict_get report_data (str ''rubric'') (JStr (str ''N/A''));
       overall_score \<leftarrow> dict_get report_data (str ''overall_score'') (JStr (str ''N/A''));
       overall_grade \<leftarrow> dict_get report_data (str ''overall_grade'') (JStr (str ''N/A''));
       timestamp \<leftarrow> dict_get report_data (str ''timestamp'') (JStr (now_table e));
       Some [Paragraph [Lit (str ''RUBRIX Assignment Analysis Report'')] title_style,
             Spacer 1 40,
             Paragraph [Lit (str ''AI-Powered Academic Evaluation'')] subtitle_style,
             Spacer 1 40,
             Table [[[Lit (str ''Assignment:'')], [Val assignment]],
                    [[Lit (str ''Rubric:'')], [Val rubric]],
                    [[Lit (str ''Overall Score:'')], [Val overall_score, Lit (str ''/100'')]],
                    [[Lit (str ''Overall Grade:'')], [Val overall_grade]],
                    [[Lit (str ''Report Generated:'')], [Val timestamp]]],
             Spacer 1 30]
     }\<close>

subsection \<open>Executive summary and grade justification (lines 138 to 146)\<close>

definition summary_section :: "json \<Rightarrow> flowable list option" where
  \<open>summary_section report_data =
     do {
       summary \<leftarrow> dict_get report_data (str ''summary'') (JStr (str ''No summary available.''));
       p \<leftarrow> paragraph_of summary normal_style;
       gj \<leftarrow> dict_get report_data (str ''grade_justification'') JNull;
       js \<leftarrow> (if truthy gj then
                do {
                  q \<leftarrow> paragraph_of gj normal_style;
                  Some [Spacer 1 20, Paragraph [Lit (str ''Grade Justification'')] heading_style, q]
                }
              else Some []);
       Some ([Paragraph [Lit (str ''Executive Summary'')] heading_style, p] @ js @ [PageBreak])
     }\<close>

subsection \<open>Critical deficiencies (lines 148 to 162)\<close>

text \<open>\<^verbatim>\<open>deficiency['priority'].upper()\<close>: only a string has the method.\<close>

fun upper_piece :: "json \<Rightarrow> piece option" where
  "upper_piece (JStr s) = Some (Upper s)"
| "upper_piece _ = None"

definition deficiency_item :: "nat \<times> json \<Rightarrow> flowable list option" where
  \<open>deficiency_item = (\<lambda>(i, deficiency).
     do {
       issue \<leftarrow> dict_get deficiency (str ''issue'') (JStr (str ''N/A''));
       priority \<leftarrow> dict_get deficiency (str ''priority'') JNull;
       ps \<leftarrow> (if truthy priority then
                do {
                  v \<leftarrow> subscript deficiency (str ''priority'');
                  u \<leftarrow> upper_piece v;
                  Some [Paragraph [Lit (str ''Priority: ''), u] normal_style]
                }
              else Some []);
       evidence \<leftarrow> dict_get deficiency (str ''evidence'') JNull;
       es \<leftarrow> (if truthy evidence then
                do {
                  v \<leftarrow> subscript deficiency (str ''evidence'');
                  Some [Paragraph [Lit (str ''<i>Evidence:</i> "''), Val v, Lit (str ''"'')] normal_style]
                }
              else Some []);
       remediation \<leftarrow> dict_get deficiency (str ''remediation'') JNull;
       rs \<leftarrow> (if truthy remediation then
                do {
                  v \<leftarrow> subscript deficiency (str ''remediation'');
                  Some [Paragraph [Lit (str ''<i>How to Fix:</i> ''), Val v] normal_style]
                }
              else Some []);
       Some ([Paragraph [Lit (str ''<b>''), Num i, Lit (str ''. ''), Val issue, Lit (str ''</b>'')]
                subheading_style] @ ps @ es @ rs @ [Spacer 1 15])
     })\<close>

definition deficiencies_section :: "json \<Rightarrow> flowable list option" where
  \<open>deficiencies_section report_data =
     do {
       shown \<leftarrow> present_nonempty report_data (str ''critical_deficiencies'');
       if shown then
         do {
           w \<leftarrow> subscript report_data (str ''critical_deficiencies'');
           items \<leftarrow> py_iter w;
           body \<leftarrow> for_each deficiency_item (enumerate 1 items);
           Some ([Paragraph [Lit (str ''Critical Deficiencies'')] heading_style,
                  Paragraph [Lit (str ''These issues require immediate attention:'')] subheading_style,
                  Spacer 1 10] @ body)
         }
       else Some []
     }\<close>

subsection \<open>Criteria breakdown (lines 164 to 208)\<close>

text \<open>The qualitative band of lines 181 to 186.\<close>

definition score_color :: "json \<Rightarrow> pystr option" where
  \<open>score_color score_percentage =
     do {
       good \<leftarrow> ge_int score_percentage 70;
       if good then Some (str ''Good'')
       else do {
         fair \<leftarrow> ge_int score_percentage 50;
         if fair then Some (str ''Needs Work'') else Some (str ''Poor'')
       }
     }\<close>

text \<open>One of the three sub-lists of a criterion: a title, then a bullet for each item.\<close>

definition sub_list :: "json \<Rightarrow> pystr \<Rightarrow> pystr \<Rightarrow> flowable list option" where
  "sub_list criterion k title =
     do {
       shown \<leftarrow> present_nonempty criterion k;
       if shown then
         do { bs \<leftarrow> bullets criterion k; Some (Paragraph [Lit title] normal_style # bs) }
       else Some []
     }"

definition criterion_item :: "json \<Rightarrow> flowable list option" where
  \<open>criterion_item criterion =
     do {
       score_percentage \<leftarrow> dict_get criterion (str ''score_percentage'') (JInt 0);
       weight \<leftarrow> dict_get criterion (str ''weight'') (JInt 0);
       name \<leftarrow> dict_get criterion (str ''criterion'') (JStr (str ''N/A''));
       band \<leftarrow> score_color score_percentage;
       ss \<leftarrow> sub_list criterion (str ''strengths'') (str ''<b>Strengths:</b>'');
       ds \<leftarrow> sub_list criterion (str ''deficiencies'') (str ''<b>Areas Needing Improvement:</b>'');
       rs \<leftarrow> sub_list criterion (str ''recommendations'') (str ''<b>Specific Recommendations:</b>'');
       Some ([Paragraph [Lit (str ''<b>''), Val name, Lit (str ''</b> - Score: ''),
                         Val score_percentage, Lit (str ''%''),
                         Lit (str '' (Weight: ''), Val weight, Lit (str ''%)'')] subheading_style,
              Paragraph [Lit (str ''Performance Level: ''), Lit band] normal_style]
             @ ss @ ds @ rs @ [Spacer 1 20])
     }\<close>


definition criteria_section :: "json \<Rightarrow> flowable list option" where
  \<open>criteria_section report_data =
     do {
       shown \<leftarrow> present_nonempty report_data (str ''criteria'');
       if shown then
         do {
           w \<leftarrow> subscript report_data (str ''criteria'');
           items \<leftarrow> py_iter w;
           body \<leftarrow> for_each criterion_item items;
           Some ([PageBreak, Paragraph [Lit (str ''Detailed Criteria Analysis'')] heading_style] @ body)
         }
       else Some []
     }\<close>

subsection \<open>Strengths to build upon (lines 210 to 221)\<close>

definition strength_item :: "nat \<times> json \<Rightarrow> flowable list option" where
  \<open>strength_item = (\<lambda>(i, strength).
     do {
       name \<leftarrow> dict_get strength (str ''strength'') (JStr (str ''N/A''));
       evidence \<leftarrow> dict_get strength (str ''evidence'') JNull;
       es \<leftarrow> (if truthy evidence then
                do {
                  v \<leftarrow> subscript strength (str ''evidence'');
                  Some [Paragraph [Lit (str ''Evidence: "''), Val v, Lit (str ''"'')] normal_style]
                }
              else Some []);
       reinforcement \<leftarrow> dict_get strength (str ''reinforcement'') JNull;
       rs \<leftarrow> (if truthy reinforcement then
                do {
                  v \<leftarrow> subscript strength (str ''reinforcement'');
                  Some [Paragraph [Lit (str ''How to build on this: ''), Val v] normal_style]
                }
              else Some []);
       Some ([Paragraph [Lit (str ''<b>''), Num i, Lit (str ''. ''), Val name, Lit (str ''</b>'')]
                subheading_style] @ es @ rs @ [Spacer 1 10])
     })\<close>

definition strengths_section :: "json \<Rightarrow> flowable list option" where
  \<open>strengths_section report_data =
     do {
       shown \<leftarrow> present_nonempty report_data (str ''strengths_to_build'');
       if shown then
         do {
           w \<leftarrow> subscript report_data (str ''strengths_to_build'');
           items \<leftarrow> py_iter w;
           body \<leftarrow> for_each strength_item (enumerate 1 items);
           Some ([PageBreak, Paragraph [Lit (str ''Key Strengths to Build Upon'')] heading_style] @ body)
         }
       else Some []
     }\<close>

subsection \<open>Structural analysis (lines 223 to 242)\<close>

text \<open>
  One field of the record: shown when \<^verbatim>\<open>struct.get(k)\<close> is true, as a title, the text
  and, for the first two fields, a spacer.
\<close>

definition struct_field :: "json \<Rightarrow> pystr \<Rightarrow> pystr \<Rightarrow> flowable list \<Rightarrow> flowable list option" where
  \<open>struct_field struct k title after =
     do {
       v \<leftarrow> dict_get struct k JNull;
       if truthy v then
         do {
           t \<leftarrow> dict_get struct k (JStr (str ''N/A''));
           p \<leftarrow> paragraph_of t normal_style;
           Some ([Paragraph [Lit title] subheading_style, p] @ after)
         }
       else Some []
     }\<close>

definition structural_section :: "json \<Rightarrow> flowable list option" where
  \<open>structural_section report_data =
     do {
       sa \<leftarrow> dict_get report_data (str ''structural_analysis'') JNull;
       if truthy sa then
         do {
           struct \<leftarrow> subscript report_data (str ''structural_analysis'');
           a \<leftarrow> struct_field struct (str ''organization'') (str ''<b>Organization:</b>'') [Spacer 1 10];
           b \<leftarrow> struct_field struct (str ''argument_development'')
                  (str ''<b>Argument Development:</b>'') [Spacer 1 10];
           c \<leftarrow> struct_field struct (str ''technical_compliance'')
                  (str ''<b>Technical Compliance:</b>'') [];
           Some ([PageBreak, Paragraph [Lit (str ''Structural Analysis'')] heading_style] @ a @ b @ c)
         }
       else Some []
     }\<close>

subsection \<open>Revision action plan (lines 244 to 272)\<close>

definition bucket :: "json \<Rightarrow> pystr \<Rightarrow> pystr \<Rightarrow> flowable list \<Rightarrow> flowable list option" where
  "bucket recs k title after =
     do {
       shown \<leftarrow> present_nonempty recs k;
       if shown then
         do { bs \<leftarrow> bullets recs k; Some (Paragraph [Lit title] subheading_style # bs @ after) }
       else Some []
     }"

definition revision_section :: "json \<Rightarrow> flowable list option" where
  \<open>revision_section report_data =
     do {
       rr \<leftarrow> dict_get report_data (str ''revision_recommendations'') JNull;
       if truthy rr then
         do {
           recs \<leftarrow> subscript report_data (str ''revision_recommendations'');
           a \<leftarrow> bucket recs (str ''high_priority'') (str ''<b>High Priority (Do First):</b>'') [Spacer 1 10];
           b \<leftarrow> bucket recs (str ''content_improvements'') (str ''<b>Content Improvements:</b>'') [Spacer 1 10];
           c \<leftarrow> bucket recs (str ''structural_changes'') (str ''<b>Structural Changes:</b>'') [Spacer 1 10];
           d \<leftarrow> bucket recs (str ''technical_fixes'') (str ''<b>Technical Fixes:</b>'') [];
           Some ([PageBreak, Paragraph [Lit (str ''Revision Action Plan'')] heading_style] @ a @ b @ c @ d)
         }
       else Some []
     }\<close>

subsection \<open>Readiness assessment (lines 274 to 299)\<close>

text \<open>The severity colour of lines 282 to 288.\<close>

definition status_color :: "json \<Rightarrow> color option" where
  \<open>status_color status =
     do {
       ready \<leftarrow> str_in (str ''Ready'') status;
       if ready then Some green
       else do {
         minor \<leftarrow> str_in (str ''Minor'') status;
         if minor then Some orange else Some red
       }
     }\<close>

definition readiness_section :: "json \<Rightarrow> flowable list option" where
  \<open>readiness_section report_data =
     do {
       ra \<leftarrow> dict_get report_data (str ''readiness_assessment'') JNull;
       if truthy ra then
         do {
           readiness \<leftarrow> subscript report_data (str ''readiness_assessment'');
           status \<leftarrow> dict_get readiness (str ''status'') (JStr (str ''Not Assessed''));
           col \<leftarrow> status_color status;
           hours \<leftarrow> dict_get readiness (str ''estimated_revision_hours'') JNull;
           hs \<leftarrow> (if truthy hours then
                    do {
                      v \<leftarrow> subscript readiness (str ''estimated_revision_hours'');
                      Some [Paragraph [Lit (str ''<b>Estimated Revision Time:</b> ''), Val v,
                                       Lit (str '' hours'')] normal_style]
                    }
                  else Some []);
           shown \<leftarrow> present_nonempty readiness (str ''key_barriers'');
           ks \<leftarrow> (if shown then
                    do {
                      bs \<leftarrow> bullets readiness (str ''key_barriers'');
                      Some ([Spacer 1 10,
                             Paragraph [Lit (str ''<b>Key Barriers to Higher Score:</b>'')]
                               subheading_style] @ bs)
                    }
                  else Some []);
           Some ([Spacer 1 20,
                  Paragraph [Lit (str ''Readiness Assessment'')] heading_style,
                  Paragraph [Lit (str ''<b>Status:</b> <font color='') , Lit [39], HexVal col,
                             Lit [39], Lit (str ''>''), Val status, Lit (str ''</font>'')]
                    normal_style] @ hs @ ks)
         }
       else Some []
     }\<close>

subsection \<open>Footer (lines 301 to 309)\<close>

definition footer :: "env \<Rightarrow> json \<Rightarrow> flowable list option" where
  \<open>footer e report_data =
     do {
       analysis_id \<leftarrow> dict_get report_data (str ''analysis_id'') (JStr (uuid8 e));
       Some [PageBreak,
             Paragraph [Lit (str ''Report Notes'')] heading_style,
             Paragraph [Lit (str ''This report was generated by RUBRIX AI-Powered Assignment Analysis System.'')]
               normal_style,
             Spacer 1 10,
             Paragraph [Lit (str ''For questions or additional support, please contact your instructor or academic advisor.'')]
               normal_style,
             Spacer 1 10,
             Paragraph [Lit (str ''Report ID: ''), Val analysis_id] normal_style,
             Paragraph [Lit (str ''Generated on: ''), Lit (now_footer e)] normal_style]
     }\<close>

subsection \<open>The whole story\<close>

definition generate_pdf_report :: "env \<Rightarrow> json \<Rightarrow> flowable list option" where
  "generate_pdf_report e report_data =
     do {
       s1 \<leftarrow> title_block e report_data;
       s2 \<leftarrow> summary_section report_data;
       s3 \<leftarrow> deficiencies_section report_data;
       s4 \<leftarrow> criteria_section report_data;
       s5 \<leftarrow> strengths_section report_data;
       s6 \<leftarrow> structural_section report_data;
       s7 \<leftarrow> revision_section report_data;
       s8 \<leftarrow> readiness_section report_data;
       s9 \<leftarrow> footer e report_data;
       Some (s1 @ s2 @ s3 @ s4 @ s5 @ s6 @ s7 @ s8 @ s9)
     }"


subsection \<open>Samples\<close>


text \<open>The heading that opens the per-criterion section.\<close>

definition criteria_heading :: flowable where
  \<open>criteria_heading = Paragraph [Lit (str ''Detailed Criteria Analysis'')] heading_style\<close>

section \<open>Evaluation Client: \<^verbatim>\<open>analyze_with_openrouter\<close> (lines 435 to 548)\<close>

text \<open>
  The limits of the interpreter that \<^verbatim>\<open>json.loads\<close> meets: the digits of an integer, and
  the nesting still allowed where \<^verbatim>\<open>response.json()\<close> reads the reply and where the
  handler reads the verdict (the two calls sit at different heights of the call stack).
\<close>

record limits =
  max_str_digits :: nat
  reply_depth :: nat
  verdict_depth :: nat

text \<open>The default digit limit, and a nesting of 900 left of the default recursion limit.\<close>

definition sample_limits :: limits where
  "sample_limits = \<lparr>max_str_digits = 4300, reply_depth = 900, verdict_depth = 900\<rparr>"

text \<open>
  What \<^verbatim>\<open>requests.post\<close> comes back with: it raises (no connection, or no answer within
  the 45 seconds of the timeout), or it returns a response with a status code and the
  body the server sent.
\<close>

datatype post_result = ConnectionError | Timeout | Response nat pystr

text \<open>
  The text of a response. The HTTP client reads no body after a status below 200, after
  204 and after 304, whatever the server sent: the text of such a response is empty.
\<close>

definition no_body :: "nat \<Rightarrow> bool" where
  "no_body status \<longleftrightarrow> status < 200 \<or> status = 204 \<or> status = 304"

definition response_text :: "nat \<Rightarrow> pystr \<Rightarrow> pystr" where
  "response_text status body = (if no_body status then [] else body)"

text \<open>
  \<^verbatim>\<open>response.raise_for_status()\<close> of the requests library raises \<^verbatim>\<open>HTTPError\<close> for a
  client error (400 to 499) and for a server error (500 to 599), and for no other status.
\<close>

definition raise_for_status :: "nat \<Rightarrow> bool" where
  "raise_for_status status \<longleftrightarrow> 400 \<le> status \<and> status < 600"

text \<open>
  The body of the \<^verbatim>\<open>try\<close> (lines 453 to 466): the cleaned reply, or \<open>None\<close> when any
  statement of it raises; \<^verbatim>\<open>except Exception\<close> catches each of the three exceptions of
  \<^verbatim>\<open>response.json()\<close>. \<^verbatim>\<open>content.strip()\<close> needs a string.
\<close>

definition caught :: "json_error + 'a \<Rightarrow> 'a option" where
  "caught x = (case x of Inr y \<Rightarrow> Some y | Inl e \<Rightarrow> None)"

definition try_reply :: "limits \<Rightarrow> post_result \<Rightarrow> pystr option" where
  \<open>try_reply lim res =
     (case res of
        ConnectionError \<Rightarrow> None
      | Timeout \<Rightarrow> None
      | Response status body \<Rightarrow>
          if raise_for_status status then None
          else do {
            result \<leftarrow> caught (json_loads (max_str_digits lim) (reply_depth lim)
                               (response_text status body));
            choices \<leftarrow> subscript result (str ''choices'');
            first \<leftarrow> subscript0 choices;
            message \<leftarrow> subscript first (str ''message'');
            content \<leftarrow> subscript message (str ''content'');
            (case content of JStr ai_response \<Rightarrow> Some (clean_response ai_response) | _ \<Rightarrow> None)
          })\<close>

text \<open>
  The provider request fails: \<^verbatim>\<open>requests.post\<close> raises, or \<^verbatim>\<open>raise_for_status\<close> does, or the
  status is below 200 or is 304: no success, and no body for \<^verbatim>\<open>response.json()\<close> to read.
\<close>

definition provider_failed :: "post_result \<Rightarrow> bool" where
  "provider_failed res \<longleftrightarrow>
     (case res of
        ConnectionError \<Rightarrow> True
      | Timeout \<Rightarrow> True
      | Response status body \<Rightarrow>
          raise_for_status status \<or> status < 200 \<or> status = 304)"

text \<open>
  A chat completion as the provider answers: the verdict text sits at
  \<^verbatim>\<open>["choices"][0]["message"]["content"]\<close>; and the body that carries it.
\<close>

definition completion :: "pystr \<Rightarrow> json" where
  \<open>completion verdict =
     JObj [(str ''choices'', JList [JObj [(str ''message'', JObj [(str ''content'', JStr verdict)])]])]\<close>

definition completion_body :: "pystr \<Rightarrow> pystr" where
  "completion_body verdict = json_dumps (completion verdict)"

text \<open>The dictionary of the \<^verbatim>\<open>except\<close> branch (lines 471 to 548).\<close>

definition fallback_report :: json where
  \<open>fallback_report =
    JObj [
      (str ''overall_score'', JInt 78),
      (str ''overall_grade'', JStr (str ''C+'')),
      (str ''criteria_breakdown'', JList [
        JObj [
          (str ''criterion'', JStr (str ''Content Quality'')),
          (str ''score_percentage'', JInt 72),
          (str ''weight'', JInt 35),
          (str ''strengths'', JList [
            JStr (str ''Clear thesis statement in introduction''),
            JStr (str ''Relevant examples provided'')]),
          (str ''deficiencies'', JList [
            JStr (str ''Lacks depth in analysis - only surface level coverage''),
            JStr (str ''Missing citations for key claims'')]),
          (str ''recommendations'', JList [
            JStr (str ''Add at least 3 scholarly references''),
            JStr (str ''Deepen analysis with counterarguments'')]),
          (str ''needs_improvement'', JBool True)],
        JObj [
          (str ''criterion'', JStr (str ''Organization'')),
          (str ''score_percentage'', JInt 85),
          (str ''weight'', JInt 25),
          (str ''strengths'', JList [
            JStr (str ''Logical paragraph structure''),
            JStr (str ''Clear transitions between sections'')]),
          (str ''deficiencies'', JList [
            JStr ((str ''Conclusion is abrupt and doesn'' @ [39] @ str ''t synthesize main points'')),
            JStr (str ''Introduction could better preview structure'')]),
          (str ''recommendations'', JList [
            JStr (str ''Expand conclusion to summarize key findings''),
            JStr (str ''Add roadmap sentence in introduction'')]),
          (str ''needs_improvement'', JBool False)],
        JObj [
          (str ''criterion'', JStr (str ''Critical Thinking'')),
          (str ''score_percentage'', JInt 65),
          (str ''weight'', JInt 40),
          (str ''strengths'', JList [
            JStr (str ''Identifies main issues in the topic'')]),
          (str ''deficiencies'', JList [
            JStr (str ''Fails to analyze underlying assumptions''),
            JStr (str ''No synthesis of different perspectives''),
            JStr (str ''Superficial evaluation of evidence'')]),
          (str ''recommendations'', JList [
            JStr (str ''Question the assumptions behind each argument''),
            JStr (str ''Compare and contrast at least 3 different viewpoints''),
            JStr (str ''Evaluate the quality of evidence used'')]),
          (str ''needs_improvement'', JBool True)]]),
      (str ''critical_deficiencies'', JList [
        JObj [
          (str ''issue'', JStr (str ''Lack of critical analysis depth'')),
          (str ''evidence'', JStr (str ''"The solution is effective because it helps people." (Paragraph 3) - This is descriptive, not analytical'')),
          (str ''priority'', JStr (str ''high'')),
          (str ''remediation'', JStr (str ''Replace descriptive statements with analytical questions: Why is it effective? For whom? Under what conditions? Compared to what alternatives?''))],
        JObj [
          (str ''issue'', JStr (str ''Missing academic citations'')),
          (str ''evidence'', JStr (str ''No references provided for claims about statistics or established theories'')),
          (str ''priority'', JStr (str ''high'')),
          (str ''remediation'', JStr (str ''Add minimum 5 scholarly sources using proper APA/MLA format''))]]),
      (str ''strengths_to_build'', JList [
        JObj [
          (str ''strength'', JStr (str ''Clear writing style'')),
          (str ''evidence'', JStr (str ''Sentence structure is varied and readable throughout (e.g., Paragraph 2 uses effective complex sentences)'')),
          (str ''reinforcement'', JStr (str ''Maintain this clarity while adding analytical depth''))],
        JObj [
          (str ''strength'', JStr (str ''Logical organization'')),
          (str ''evidence'', JStr (str ''Each paragraph has clear topic sentences and flows naturally to the next'')),
          (str ''reinforcement'', JStr (str ''Apply same organizational rigor to argument development''))]]),
      (str ''structural_analysis'', JObj [
        (str ''organization'', JStr (str ''Good basic structure but lacks sophistication in argument development'')),
        (str ''argument_development'', JStr (str ''Linear presentation without enough critical engagement or synthesis'')),
        (str ''technical_compliance'', JStr (str ''Meets basic formatting but lacks citations and proper academic conventions''))]),
      (str ''revision_recommendations'', JObj [
        (str ''high_priority'', JList [
          JStr (str ''Add scholarly citations''),
          JStr (str ''Deepen critical analysis'')]),
        (str ''content_improvements'', JList [
          JStr (str ''Include counterarguments''),
          JStr (str ''Add case studies/examples'')]),
        (str ''structural_changes'', JList [
          JStr (str ''Expand conclusion''),
          JStr (str ''Add literature review section'')]),
        (str ''technical_fixes'', JList [
          JStr (str ''Add reference list''),
          JStr (str ''Fix formatting inconsistencies'')])]),
      (str ''grade_justification'', JStr (str ''Score of 78 reflects adequate content presentation but significant deficiencies in critical analysis and academic rigor. While well-organized, the submission lacks the analytical depth and scholarly engagement required for higher grades.'')),
      (str ''readiness_assessment'', JObj [
        (str ''status'', JStr (str ''Needs Major Revision'')),
        (str ''estimated_revision_hours'', JInt 6),
        (str ''key_barriers'', JList [
          JStr (str ''Insufficient critical engagement''),
          JStr (str ''Lack of scholarly references''),
          JStr (str ''Superficial analysis'')])]),
      (str ''summary'', JStr (str ''Adequately organized submission that meets basic requirements but requires substantial improvement in analytical depth, scholarly engagement, and critical thinking to achieve higher standards.'')),
      (str ''note'', JStr (str ''Using simulated analysis (OpenRouter unavailable)''))]\<close>

text \<open>
  The function, given the provider as a function from the prompt posted to what comes
  back. It returns the verdict text and the prompts it has posted: always exactly one,
  there is no retry. The three option flags of the signature are never read.
\<close>

definition analyze_with_openrouter ::
  "limits \<Rightarrow> (pystr \<Rightarrow> post_result) \<Rightarrow> pystr \<Rightarrow> pystr \<Rightarrow> pystr \<times> pystr list" where
  "analyze_with_openrouter lim provider assignment_text rubric_text =
     (let prompt = build_prompt assignment_text rubric_text in
      (case try_reply lim (provider prompt) of
         Some ai_response \<Rightarrow> ai_response
       | None \<Rightarrow> json_dumps fallback_report,
       [prompt]))"

section \<open>Verdict Parser and request handling: \<^verbatim>\<open>upload_files\<close> (lines 555 to 678)\<close>

text \<open>
  A request is a JSON body with its two text fields (\<open>None\<close> for an absent key; the
  fields are strings), or a form with its two uploaded files (\<open>None\<close> for an absent
  file). A file is its name and the text \<^verbatim>\<open>read_file_content\<close> reads back after saving.
  The file system is not modelled. A JSON body that does not parse, is no dictionary or
  holds a text that is no string is not in the datatype: the code raises on it and the
  outer handler answers.
\<close>

record upload =
  filename :: pystr
  content :: pystr

datatype request =
    JsonRequest "pystr option" "pystr option"
  | FormRequest "upload option" "upload option"

text \<open>
  A response is \<^verbatim>\<open>jsonify\<close> of a dictionary, the index page with an error message, or the
  result page with the analysis and the two file names. The last two are the answers of
  the outer handler (lines 670 to 678) to an exception \<open>e\<close>: \<^verbatim>\<open>jsonify\<close> of
  \<^verbatim>\<open>{'success': False, 'error': f'Error: {str(e)}'}\<close>, and the index page with the
  message \<^verbatim>\<open>f'Error: {str(e)}'\<close>; the text of \<^verbatim>\<open>str(e)\<close> is not modelled.
\<close>

datatype response =
    Jsonify json
  | RenderIndex pystr
  | RenderResult json pystr pystr
  | JsonifyException json_error
  | RenderIndexException json_error

text \<open>The dictionary built when the verdict of an upload does not parse (lines 638 to 654).\<close>

definition degraded_report :: "pystr \<Rightarrow> json" where
  \<open>degraded_report analysis_result =
     JObj [
       (str ''overall_score'', JInt 75),
       (str ''overall_grade'', JStr (str ''C'')),
       (str ''criteria_breakdown'', JList [
          JObj [
            (str ''criterion'', JStr (str ''Content'')),
            (str ''score_percentage'', JInt 70),
            (str ''weight'', JInt 30),
            (str ''strengths'', JList [JStr (str ''Basic content covered'')]),
            (str ''deficiencies'', JList [JStr (str ''Analysis needed'')]),
            (str ''recommendations'', JList [JStr (str ''Improve depth'')]),
            (str ''needs_improvement'', JBool True)]]),
       (str ''summary'', JStr (str ''Analysis completed but with parsing limitations.'')),
       (str ''raw_response'', JStr (take 500 analysis_result))]\<close>

definition validation_error :: json where
  \<open>validation_error =
     JObj [(str ''success'', JBool False),
           (str ''error'', JStr (str ''Both assignment and rubric text are required''))]\<close>

definition parse_error :: "pystr \<Rightarrow> json" where
  \<open>parse_error analysis_result =
     JObj [(str ''success'', JBool False),
           (str ''error'', JStr (str ''Failed to parse AI response'')),
           (str ''raw_response'', JStr analysis_result)]\<close>

definition success_payload :: "json \<Rightarrow> json" where
  \<open>success_payload analysis_data =
     JObj [(str ''success'', JBool True), (str ''analysis'', analysis_data)]\<close>

text \<open>
  The parsing step of the JSON branch (lines 585 to 597): \<open>Inl e\<close> is an exception that
  \<^verbatim>\<open>except json.JSONDecodeError\<close> does not catch.
\<close>

definition parse_json_branch :: "limits \<Rightarrow> pystr \<Rightarrow> json_error + response" where
  "parse_json_branch lim analysis_result =
     (case json_loads (max_str_digits lim) (verdict_depth lim) analysis_result of
        Inr analysis_data \<Rightarrow> Inr (Jsonify (success_payload analysis_data))
      | Inl e \<Rightarrow>
          if e = JSONDecodeError then Inr (Jsonify (parse_error analysis_result)) else Inl e)"

text \<open>The parsing step of the upload branch (lines 634 to 654), in the same way.\<close>

definition parse_upload_branch :: "limits \<Rightarrow> pystr \<Rightarrow> json_error + json" where
  "parse_upload_branch lim analysis_result =
     (case json_loads (max_str_digits lim) (verdict_depth lim) analysis_result of
        Inr analysis_data \<Rightarrow> Inr analysis_data
      | Inl e \<Rightarrow>
          if e = JSONDecodeError then Inr (degraded_report analysis_result) else Inl e)"

text \<open>
  The handler: the response and the prompts posted to the provider while it ran.
  \<^verbatim>\<open>data.get('assignment_text', '')\<close> is the empty string for an absent key, and
  \<^verbatim>\<open>not s\<close> holds of the empty string only. An exception that leaves the parsing step
  is answered by the outer handler, in the form of the request.
\<close>

definition upload_files ::
  "limits \<Rightarrow> (pystr \<Rightarrow> post_result) \<Rightarrow> request \<Rightarrow> response \<times> pystr list" where
  \<open>upload_files lim provider req =
     (case req of
        JsonRequest a r \<Rightarrow>
          let assignment_text = (case a of Some s \<Rightarrow> s | None \<Rightarrow> []);
              rubric_text = (case r of Some s \<Rightarrow> s | None \<Rightarrow> [])
          in if assignment_text = [] \<or> rubric_text = [] then (Jsonify validation_error, [])
             else
               let (analysis_result, posted) =
                     analyze_with_openrouter lim provider assignment_text rubric_text
               in (case parse_json_branch lim analysis_result of
                     Inr answer \<Rightarrow> answer
                   | Inl e \<Rightarrow> JsonifyException e,
                   posted)
      | FormRequest (Some assignment_file) (Some rubric_file) \<Rightarrow>
          if filename assignment_file = [] \<or> filename rubric_file = []
          then (RenderIndex (str ''No files selected''), [])
          else
            let (analysis_result, posted) =
                  analyze_with_openrouter lim provider (content assignment_file) (content rubric_file)
            in (case parse_upload_branch lim analysis_result of
                  Inr analysis_data \<Rightarrow>
                    RenderResult analysis_data (filename assignment_file) (filename rubric_file)
                | Inl e \<Rightarrow> RenderIndexException e,
                posted)
      | FormRequest _ _ \<Rightarrow> (RenderIndex (str ''Invalid request format''), []))\<close>

text \<open>A verdict that is no JSON: an array left open, holding an integer of 4301 digits.\<close>

definition overlong_verdict :: pystr where
  "overlong_verdict = 91 # replicate 4301 49"

section \<open>The Report of the data model\<close>

text \<open>
  The shape of a Report as section 3 of the specification words it, for comparison with
  what the code produces and reads. A field that is present has the type the section
  gives it; ranges are not part of the shape, since values are passed through unchecked.
\<close>

fun is_str :: "json \<Rightarrow> bool" where
  "is_str (JStr s) \<longleftrightarrow> True"
| "is_str _ \<longleftrightarrow> False"

fun is_int :: "json \<Rightarrow> bool" where
  "is_int (JInt i) \<longleftrightarrow> True"
| "is_int _ \<longleftrightarrow> False"

fun is_number :: "json \<Rightarrow> bool" where
  "is_number (JInt i) \<longleftrightarrow> True"
| "is_number (JFloat f) \<longleftrightarrow> True"
| "is_number _ \<longleftrightarrow> False"

fun is_bool :: "json \<Rightarrow> bool" where
  "is_bool (JBool b) \<longleftrightarrow> True"
| "is_bool _ \<longleftrightarrow> False"

fun list_of :: "(json \<Rightarrow> bool) \<Rightarrow> json \<Rightarrow> bool" where
  "list_of P (JList xs) \<longleftrightarrow> list_all P xs"
| "list_of P _ \<longleftrightarrow> False"

definition optional :: "(pystr \<times> json) list \<Rightarrow> pystr \<Rightarrow> (json \<Rightarrow> bool) \<Rightarrow> bool" where
  "optional d k P \<longleftrightarrow> (case map_of d k of None \<Rightarrow> True | Some v \<Rightarrow> P v)"

definition required :: "(pystr \<times> json) list \<Rightarrow> pystr \<Rightarrow> (json \<Rightarrow> bool) \<Rightarrow> bool" where
  "required d k P \<longleftrightarrow> (case map_of d k of None \<Rightarrow> False | Some v \<Rightarrow> P v)"

fun criterion_shape :: "json \<Rightarrow> bool" where
  \<open>criterion_shape (JObj d) \<longleftrightarrow>
     optional d (str ''criterion'') is_str \<and>
     optional d (str ''score_percentage'') is_int \<and>
     optional d (str ''weight'') is_int \<and>
     optional d (str ''strengths'') (list_of is_str) \<and>
     optional d (str ''deficiencies'') (list_of is_str) \<and>
     optional d (str ''recommendations'') (list_of is_str) \<and>
     optional d (str ''needs_improvement'') is_bool\<close>
| "criterion_shape _ \<longleftrightarrow> False"

fun deficiency_shape :: "json \<Rightarrow> bool" where
  \<open>deficiency_shape (JObj d) \<longleftrightarrow>
     optional d (str ''issue'') is_str \<and>
     optional d (str ''evidence'') is_str \<and>
     optional d (str ''priority'') is_str \<and>
     optional d (str ''remediation'') is_str\<close>
| "deficiency_shape _ \<longleftrightarrow> False"

fun strength_shape :: "json \<Rightarrow> bool" where
  \<open>strength_shape (JObj d) \<longleftrightarrow>
     optional d (str ''strength'') is_str \<and>
     optional d (str ''evidence'') is_str \<and>
     optional d (str ''reinforcement'') is_str\<close>
| "strength_shape _ \<longleftrightarrow> False"

fun structural_shape :: "json \<Rightarrow> bool" where
  \<open>structural_shape (JObj d) \<longleftrightarrow>
     optional d (str ''organization'') is_str \<and>
     optional d (str ''argument_development'') is_str \<and>
     optional d (str ''technical_compliance'') is_str\<close>
| "structural_shape _ \<longleftrightarrow> False"

fun revision_shape :: "json \<Rightarrow> bool" where
  \<open>revision_shape (JObj d) \<longleftrightarrow>
     optional d (str ''high_priority'') (list_of is_str) \<and>
     optional d (str ''content_improvements'') (list_of is_str) \<and>
     optional d (str ''structural_changes'') (list_of is_str) \<and>
     optional d (str ''technical_fixes'') (list_of is_str)\<close>
| "revision_shape _ \<longleftrightarrow> False"

fun readiness_shape :: "json \<Rightarrow> bool" where
  \<open>readiness_shape (JObj d) \<longleftrightarrow>
     optional d (str ''status'') is_str \<and>
     optional d (str ''estimated_revision_hours'') is_number \<and>
     optional d (str ''key_barriers'') (list_of is_str)\<close>
| "readiness_shape _ \<longleftrightarrow> False"

text \<open>Every field of a Report, when present, has its type.\<close>

definition report_fields :: "(pystr \<times> json) list \<Rightarrow> bool" where
  \<open>report_fields d \<longleftrightarrow>
     optional d (str ''overall_score'') is_int \<and>
     optional d (str ''overall_grade'') is_str \<and>
     optional d (str ''criteria'') (list_of criterion_shape) \<and>
     optional d (str ''critical_deficiencies'') (list_of deficiency_shape) \<and>
     optional d (str ''strengths_to_build'') (list_of strength_shape) \<and>
     optional d (str ''structural_analysis'') structural_shape \<and>
     optional d (str ''revision_recommendations'') revision_shape \<and>
     optional d (str ''grade_justification'') is_str \<and>
     optional d (str ''readiness_assessment'') readiness_shape \<and>
     optional d (str ''summary'') is_str \<and>
     optional d (str ''analysis_id'') is_str \<and>
     optional d (str ''timestamp'') is_str\<close>

text \<open>
  A Report: a dictionary whose fields have their types, with the score, the grade and the
  summary present. The lists and the records may be absent (an absent list is an empty
  one), and keys the data model does not name are allowed.
\<close>

fun report_shape :: "json \<Rightarrow> bool" where
  \<open>report_shape (JObj d) \<longleftrightarrow>
     report_fields d \<and>
     required d (str ''overall_score'') is_int \<and>
     required d (str ''overall_grade'') is_str \<and>
     required d (str ''summary'') is_str\<close>
| "report_shape _ \<longleftrightarrow> False"

section \<open>Proofs\<close>

subsection \<open>Stripping and fence removal\<close>

lemma strip_cons_space: "isspace c \<Longrightarrow> strip (c # s) = strip s"
  by (simp add: strip_def lstrip_def)

lemma strip_snoc_space:
  assumes "isspace c"
  shows "strip (s @ [c]) = strip s"
proof (cases "\<forall>x\<in>set s. isspace x")
  case True
  have 1: "dropWhile isspace s = []"
    unfolding dropWhile_eq_Nil_conv using True by blast
  have 2: "dropWhile isspace (s @ [c]) = []"
    unfolding dropWhile_eq_Nil_conv using True assms by auto
  show ?thesis by (simp only: strip_def lstrip_def rstrip_def 1 2)
next
  case False
  then obtain x where "x \<in> set s" "\<not> isspace x" by blast
  then have "dropWhile isspace (s @ [c]) = dropWhile isspace s @ [c]"
    by (rule dropWhile_append1)
  with assms show ?thesis by (simp add: strip_def lstrip_def rstrip_def)
qed

lemma rstrip_fixed: "s = [] \<or> \<not> isspace (last s) \<Longrightarrow> rstrip s = s"
  by (cases s rule: rev_cases) (auto simp: rstrip_def)

lemma lstrip_fixed: "s = [] \<or> \<not> isspace (hd s) \<Longrightarrow> lstrip s = s"
  by (cases s) (auto simp: lstrip_def)

lemma lstrip_hd: "lstrip s = [] \<or> \<not> isspace (hd (lstrip s))"
  unfolding lstrip_def by (metis hd_dropWhile)

lemma rstrip_last: "rstrip s = [] \<or> \<not> isspace (last (rstrip s))"
  unfolding rstrip_def by (metis hd_dropWhile last_rev rev_is_Nil_conv)

lemma rstrip_prefix: "\<exists>w. s = rstrip s @ w"
proof
  show "s = rstrip s @ rev (takeWhile isspace (rev s))"
    unfolding rstrip_def by (metis rev_append rev_rev_ident takeWhile_dropWhile_id)
qed

lemma strip_ends: "strip s = [] \<or> (\<not> isspace (hd (strip s)) \<and> \<not> isspace (last (strip s)))"
proof (cases "strip s = []")
  case True
  then show ?thesis by simp
next
  case False
  obtain w where w: "lstrip s = strip s @ w"
    using rstrip_prefix [of "lstrip s"] by (auto simp: strip_def)
  with False have "hd (strip s) = hd (lstrip s)" by (metis hd_append2)
  moreover from w False have "lstrip s \<noteq> []" by auto
  ultimately have "\<not> isspace (hd (strip s))" using lstrip_hd [of s] by simp
  moreover have "\<not> isspace (last (strip s))"
    using rstrip_last [of "lstrip s"] False by (simp add: strip_def)
  ultimately show ?thesis by simp
qed

lemma strip_fixed: "s = [] \<or> (\<not> isspace (hd s) \<and> \<not> isspace (last s)) \<Longrightarrow> strip s = s"
  unfolding strip_def by (metis lstrip_fixed rstrip_fixed)

lemma strip_strip: "strip (strip s) = strip s"
  by (rule strip_fixed) (rule strip_ends)

lemma fence_chars: "fence = [96, 96, 96]" "fence_json = [96, 96, 96, 106, 115, 111, 110]"
  by (simp_all add: fence_def fence_json_def str_def)

lemma startswith_append: "startswith (p @ s) p"
  by (simp add: startswith_def)

lemma startswith_fence_json_imp:
  assumes "startswith s fence_json"
  shows "startswith s fence"
proof -
  have l: "length fence_json = 7" "length fence = 3" by (simp_all add: fence_chars)
  from assms have "take 7 s = fence_json"
    by (simp only: startswith_def l)
  then have "take 3 (take 7 s) = take 3 fence_json" by (rule arg_cong)
  then have "take 3 s = fence" by (simp add: fence_chars)
  then show ?thesis by (simp only: startswith_def l)
qed

lemma isspace_10: "isspace 10" by (simp add: isspace_def)
lemma not_isspace_96: "\<not> isspace 96" by (simp add: isspace_def)

lemma clean_fenced_json: "clean_response (fenced_json x) = strip x"
proof -
  have s: "strip (fenced_json x) = fenced_json x"
    by (rule strip_fixed) (simp add: fenced_json_def fence_chars not_isspace_96)
  have st: "startswith (fenced_json x) fence_json"
    by (simp add: fenced_json_def startswith_def)
  have sl: "slice_from_to_end_minus (fenced_json x) 7 3 = 10 # x @ [10]"
    by (simp add: slice_from_to_end_minus_def fenced_json_def fence_chars)
  have "strip (10 # x @ [10]) = strip x"
    using strip_snoc_space [of 10 "10 # x"] by (simp add: strip_cons_space isspace_10)
  then show ?thesis
    by (simp add: clean_response_def s st sl)
qed

lemma clean_fenced: "clean_response (fenced x) = strip x"
proof -
  have s: "strip (fenced x) = fenced x"
    by (rule strip_fixed) (simp add: fenced_def fence_chars not_isspace_96)
  have st: "startswith (fenced x) fence" "\<not> startswith (fenced x) fence_json"
    by (simp_all add: fenced_def startswith_def fence_chars)
  have sl: "slice_from_to_end_minus (fenced x) 3 3 = 10 # x @ [10]"
    by (simp add: slice_from_to_end_minus_def fenced_def fence_chars)
  have "strip (10 # x @ [10]) = strip x"
    using strip_snoc_space [of 10 "10 # x"] by (simp add: strip_cons_space isspace_10)
  then show ?thesis
    by (simp add: clean_response_def s st sl)
qed

lemma clean_unfenced: "\<not> startswith (strip x) fence \<Longrightarrow> clean_response x = strip x"
  using startswith_fence_json_imp [of "strip x"] by (auto simp: clean_response_def Let_def)

lemma clean_is_stripped: "strip (clean_response s) = clean_response s"
  by (simp add: clean_response_def Let_def strip_strip)

lemma clean_idem: "\<not> startswith (clean_response s) fence \<Longrightarrow> clean_response (clean_response s) = clean_response s"
  using clean_unfenced [of "clean_response s"] by (simp add: clean_is_stripped)

lemma nested_chars: "str ''```a```'' = [96, 96, 96, 97, 96, 96, 96]"
  by (simp add: str_def)

lemma strip_nested: "strip (str ''```a```'') = str ''```a```''"
  by (rule strip_fixed) (simp add: nested_chars isspace_def)

lemma strip_a: "strip [97] = [97]"
  by (rule strip_fixed) (simp add: isspace_def)

lemma clean_nested: "clean_response (str ''```a```'') = [97]"
  by (simp add: clean_response_def strip_nested)
     (simp add: nested_chars fence_chars startswith_def slice_from_to_end_minus_def strip_a)

lemma nested_differs: "[97] \<noteq> str ''```a```''"
  unfolding nested_chars by simp

lemma clean_fenced_nested: "clean_response (fenced_json (str ''```a```'')) = str ''```a```''"
  by (simp only: clean_fenced_json strip_nested)

text \<open>
  Claim C3, as the specification states it, fails: a reply that itself starts with a
  fence is not passed through, and a fenced reply whose content is fenced again is
  changed by a second cleaning. The content here is \<^verbatim>\<open>```a```\<close>.
\<close>

theorem clean_response_not_idempotent:
  "clean_response (str ''```a```'') \<noteq> strip (str ''```a```'') \<and>
   clean_response (clean_response (fenced_json (str ''```a```'')))
     \<noteq> clean_response (fenced_json (str ''```a```''))"
  unfolding clean_fenced_nested clean_nested strip_nested using nested_differs by simp

text \<open>
  Claim C3, amended: for every string \<open>x\<close>, the reply fenced with the language tag and
  the reply fenced without it are both cleaned to \<open>x.strip()\<close>; the bare reply \<open>x\<close> is
  cleaned to \<open>x.strip()\<close> when \<open>x.strip()\<close> does not itself start with a fence; and cleaning
  twice equals cleaning once whenever the result of the first cleaning does not start
  with a fence.
\<close>

theorem clean_response_fence_formats:
  "clean_response (fenced_json x) = strip x \<and>
   clean_response (fenced x) = strip x \<and>
   (\<not> startswith (strip x) fence \<longrightarrow> clean_response x = strip x) \<and>
   (\<not> startswith (clean_response x) fence \<longrightarrow>
      clean_response (clean_response x) = clean_response x)"
  using clean_fenced_json clean_fenced clean_unfenced clean_idem by blast

lemma strip_sample: "strip (str '' {} '') = str ''{}''"
  by (simp add: strip_def lstrip_def rstrip_def isspace_def str_def)

lemma sample_unfenced: "\<not> startswith (str ''{}'') fence"
  by (simp add: startswith_def fence_chars str_def)

theorem clean_response_fence_formats_witness:
  "\<not> startswith (strip (str '' {} '')) fence \<and>
   \<not> startswith (clean_response (str '' {} '')) fence \<and>
   clean_response (fenced_json (str '' {} '')) = str ''{}'' \<and>
   clean_response (fenced (str '' {} '')) = str ''{}'' \<and>
   clean_response (str '' {} '') = str ''{}'' \<and>
   clean_response (clean_response (str '' {} '')) = str ''{}''"
proof -
  have u: "\<not> startswith (strip (str '' {} '')) fence"
    unfolding strip_sample by (rule sample_unfenced)
  have c: "clean_response (str '' {} '') = str ''{}''"
    using clean_response_fence_formats [of "str '' {} ''"] u strip_sample by simp
  show ?thesis
    using clean_response_fence_formats [of "str '' {} ''"] u c strip_sample sample_unfenced
    by simp
qed

subsection \<open>The prompt\<close>

text \<open>
  Claim C7: the prompt embeds the first 4000 characters of the rubric and the first 6000
  characters of the assignment, between fixed texts: the two embedded pieces are
  prefixes of the inputs, no longer than the budgets and equal to the whole input when it
  fits; and the prompt does not depend on anything beyond these prefixes.
\<close>

theorem build_prompt_truncates:
  "build_prompt a r = prompt_head @ take 4000 r @ prompt_middle @ take 6000 a @ prompt_tail \<and>
   prefix (take 4000 r) r \<and> length (take 4000 r) = min (length r) 4000 \<and>
   prefix (take 6000 a) a \<and> length (take 6000 a) = min (length a) 6000 \<and>
   (take 4000 r = take 4000 r' \<and> take 6000 a = take 6000 a' \<longrightarrow>
      build_prompt a r = build_prompt a' r')"
  by (simp add: build_prompt_def take_is_prefix)

theorem build_prompt_truncates_witness:
  "take 4000 (replicate 4000 114 @ [120]) = take 4000 (replicate 4000 114 @ [121 :: nat]) \<and>
   take 6000 (replicate 6000 97 @ [120]) = take 6000 (replicate 6000 97 @ [121 :: nat]) \<and>
   build_prompt (replicate 6000 97 @ [120]) (replicate 4000 114 @ [120]) =
     build_prompt (replicate 6000 97 @ [121]) (replicate 4000 114 @ [121]) \<and>
   length (take 4000 (replicate 4000 114 @ [120 :: nat])) = 4000"
  using build_prompt_truncates [of "replicate 6000 97 @ [120]" "replicate 4000 114 @ [120]"
      "replicate 4000 114 @ [121]" "replicate 6000 97 @ [121]"]
  by auto


subsection \<open>Reading back what \<open>json_dumps\<close> wrote\<close>

lemma repr_nat_digits: "list_all is_digit (repr_nat n)"
proof (induction n rule: repr_nat.induct)
  case (1 n)
  show ?case
  proof (cases "n < 10")
    case True
    then show ?thesis by (subst repr_nat.simps) (simp add: is_digit_def)
  next
    case False
    have "n mod 10 < 10" by simp
    then have "is_digit (48 + n mod 10)" unfolding is_digit_def by linarith
    with False 1 show ?thesis by (subst repr_nat.simps) simp
  qed
qed

lemma repr_nat_nonempty: "repr_nat n \<noteq> []"
  by (subst repr_nat.simps) simp

lemma digits_val_snoc: "digits_val (ds @ [d]) = 10 * digits_val ds + (d - 48)"
  by (simp add: digits_val_def)

lemma digits_val_repr_nat: "digits_val (repr_nat n) = n"
proof (induction n rule: repr_nat.induct)
  case (1 n)
  show ?case
  proof (cases "n < 10")
    case True
    then show ?thesis by (subst repr_nat.simps) (simp add: digits_val_def)
  next
    case False
    with 1 show ?thesis by (subst repr_nat.simps) (simp add: digits_val_snoc)
  qed
qed

lemma repr_nat_hd: "0 < n \<Longrightarrow> \<exists>c ds. repr_nat n = c # ds \<and> 49 \<le> c \<and> c \<le> 57"
proof (induction n rule: repr_nat.induct)
  case (1 n)
  show ?case
  proof (cases "n < 10")
    case True
    with 1(2) show ?thesis by (subst repr_nat.simps) simp
  next
    case False
    then have "0 < n div 10" by simp
    with 1(1) False obtain c ds where "repr_nat (n div 10) = c # ds" "49 \<le> c" "c \<le> 57" by blast
    with False show ?thesis by (subst repr_nat.simps) simp
  qed
qed

lemma repr_nat_0: "repr_nat 0 = [48]"
  by (subst repr_nat.simps) simp

lemma delim_not_digit: "delim rest \<Longrightarrow> rest = [] \<or> \<not> is_digit (hd rest)"
  by (auto simp: delim_def is_digit_def)

lemma takeWhile_digits: 
  assumes "list_all is_digit ds" "rest = [] \<or> \<not> is_digit (hd rest)"
  shows "takeWhile is_digit (ds @ rest) = ds" "dropWhile is_digit (ds @ rest) = rest"
  using assms by (induction ds) (cases rest; simp)+

lemma int_part_repr_nat:
  assumes "rest = [] \<or> \<not> is_digit (hd rest)"
  shows "int_part (repr_nat n @ rest) = Some (repr_nat n, rest)"
proof (cases "n = 0")
  case True
  then show ?thesis by (simp add: repr_nat_0 int_part_def)
next
  case False
  then obtain c ds where r: "repr_nat n = c # ds" "49 \<le> c" "c \<le> 57" using repr_nat_hd [of n] by auto
  have "list_all is_digit ds" using repr_nat_digits [of n] r by simp
  then show ?thesis using r assms by (simp add: int_part_def takeWhile_digits)
qed

lemma frac_exp_delim: "delim rest \<Longrightarrow> frac_part rest = None \<and> exp_part rest = None"
  by (cases rest) (auto simp: delim_def frac_part_def exp_part_def)

lemma match_number_nat:
  assumes "delim rest"
  shows "match_number (repr_nat n @ rest) = Some (JInt (int n), rest)"
proof -
  obtain c ds where r: "repr_nat n = c # ds" "is_digit c"
    using repr_nat_nonempty [of n] repr_nat_digits [of n] by (cases "repr_nat n") auto
  then have "c \<noteq> 45" by (auto simp: is_digit_def)
  then have "match_number ((c # ds) @ rest) = Some (JInt (int (digits_val (c # ds))), rest)"
    using int_part_repr_nat [of rest n] assms r frac_exp_delim [OF assms] delim_not_digit [OF assms]
    by (simp add: match_number_def)
  then show ?thesis using r digits_val_repr_nat [of n] by simp
qed

lemma match_number_int:
  assumes "delim rest"
  shows "match_number (repr_int i @ rest) = Some (JInt i, rest)"
proof (cases "i < 0")
  case True
  then show ?thesis
    using int_part_repr_nat [of rest "nat (- i)"] frac_exp_delim [OF assms] delim_not_digit [OF assms]
    by (simp add: repr_int_def match_number_def digits_val_repr_nat)
next
  case False
  then show ?thesis using match_number_nat [OF assms, of "nat i"] by (simp add: repr_int_def)
qed

lemma repr_int_hd: "\<exists>c t. repr_int i = c # t \<and> (c = 45 \<or> is_digit c)"
  using repr_nat_nonempty [of "nat i"] repr_nat_digits [of "nat i"]
  by (cases "repr_nat (nat i)") (auto simp: repr_int_def)

lemma int_digits_repr_int:
  assumes "delim rest"
  shows "int_digits (repr_int i @ rest) = length (repr_nat (nat \<bar>i\<bar>))"
proof (cases "i < 0")
  case True
  then have "nat \<bar>i\<bar> = nat (- i)" by simp
  then show ?thesis
    using True int_part_repr_nat [of rest "nat (- i)"] delim_not_digit [OF assms]
    by (simp add: repr_int_def int_digits_def)
next
  case False
  obtain c ds where r: "repr_nat (nat i) = c # ds" "is_digit c"
    using repr_nat_nonempty [of "nat i"] repr_nat_digits [of "nat i"] by (cases "repr_nat (nat i)") auto
  then have c: "c \<noteq> 45" by (auto simp: is_digit_def)
  have "int_part ((c # ds) @ rest) = Some (c # ds, rest)"
    using int_part_repr_nat [of rest "nat i"] delim_not_digit [OF assms] r by simp
  then have "int_digits ((c # ds) @ rest) = length (c # ds)"
    using c by (simp add: int_digits_def)
  moreover have "nat \<bar>i\<bar> = nat i" using False by simp
  ultimately show ?thesis using False r by (simp add: repr_int_def)
qed

lemma scan_atom_int:
  assumes "delim rest" "fits g d (JInt i)"
  shows "scan_atom g (repr_int i @ rest) = Inr (JInt i, rest)"
proof -
  obtain c t where r: "repr_int i = c # t" "c = 45 \<or> is_digit c" using repr_int_hd by blast
  then have "\<not> startswith (repr_int i @ rest) (str ''null'')"
    "\<not> startswith (repr_int i @ rest) (str ''true'')"
    "\<not> startswith (repr_int i @ rest) (str ''false'')"
    by (auto simp: startswith_def str_def is_digit_def)
  then show ?thesis
    using match_number_int [OF assms(1), of i] int_digits_repr_int [OF assms(1), of i] assms(2)
    by (simp add: scan_atom_def)
qed

lemma scan_atom_literals:
  "scan_atom g (str ''null'' @ rest) = Inr (JNull, rest)"
  "scan_atom g (str ''true'' @ rest) = Inr (JBool True, rest)"
  "scan_atom g (str ''false'' @ rest) = Inr (JBool False, rest)"
  by (simp_all add: scan_atom_def literal_def startswith_def str_def decoded_def)

lemma scanstring_escape_char:
  "plain_char c \<Longrightarrow> scanstring acc (escape_char c @ rest) = scanstring (c # acc) rest"
  by (auto simp: plain_char_def escape_char_def simple_escape_def)

lemma scanstring_plain:
  "list_all plain_char s \<Longrightarrow>
   scanstring acc (concat (map escape_char s) @ 34 # rest) = Some (rev acc @ s, rest)"
  by (induction s arbitrary: acc) (simp_all add: scanstring_escape_char)

lemma skip_ws_nonws: "\<not> is_ws c \<Longrightarrow> skip_ws (c # s) = c # s"
  by (simp add: skip_ws_def)

lemma json_dumps_hd:
  "plain_json v \<Longrightarrow> \<exists>c t. json_dumps v = c # t \<and> \<not> is_ws c \<and> c \<noteq> 93 \<and> c \<noteq> 125"
proof (cases v)
  case (JInt i)
  then show ?thesis using repr_int_hd [of i] by (auto simp: is_ws_def is_digit_def)
qed (auto simp: str_def is_ws_def encode_string_def)

lemma join_hd:
  assumes "xs \<noteq> []" "\<exists>c t. f (hd xs) = c # t \<and> P c"
  shows "\<exists>c t. join sep (map f xs) = c # t \<and> P c"
proof (cases xs)
  case Nil
  with assms show ?thesis by simp
next
  case (Cons x ys)
  with assms show ?thesis by (cases ys) auto
qed

lemma sep_chars: "str '', '' = [44, 32]" "str '': '' = [58, 32]"
  by (simp_all add: str_def)

lemma scan_array_join:
  assumes "\<And>x n rest. x \<in> set xs \<Longrightarrow> delim rest \<Longrightarrow> 2 * length (json_dumps x) < n \<Longrightarrow>
             scan_once n g d (json_dumps x @ rest) = Inr (x, rest)"
    and "list_all plain_json xs" and "xs \<noteq> []"
    and "2 * length (join (str '', '') (map json_dumps xs)) + 1 < n"
  shows "scan_array n g d acc (join (str '', '') (map json_dumps xs) @ 93 # rest)
           = Inr (JList (rev acc @ xs), rest)"
  using assms
proof (induction xs arbitrary: n acc)
  case Nil
  then show ?case by simp
next
  case (Cons x xs)
  from Cons.prems(4) obtain m where n: "n = Suc m" by (cases n) auto
  show ?case
  proof (cases xs)
    case Nil
    have "scan_once m g d (json_dumps x @ 93 # rest) = Inr (x, 93 # rest)"
      using Cons.prems(1) [of x "93 # rest" m] Cons.prems(4) n Nil by (simp add: delim_def)
    then show ?thesis using n Nil by (simp add: skip_ws_def is_ws_def expect_def)
  next
    case (Cons y ys)
    let ?J = "join (str '', '') (map json_dumps xs)"
    have jx: "join (str '', '') (map json_dumps (x # xs)) = json_dumps x @ 44 # 32 # ?J"
      using Cons by (simp add: sep_chars)
    have "plain_json y" using Cons.prems(2) Cons by simp
    then obtain c t where J: "?J = c # t" "\<not> is_ws c"
      using join_hd [of xs json_dumps "\<lambda>c. \<not> is_ws c \<and> c \<noteq> 93 \<and> c \<noteq> 125" "str '', ''"] json_dumps_hd [of y] Cons
      by auto
    have 1: "scan_once m g d (json_dumps x @ 44 # 32 # ?J @ 93 # rest) = Inr (x, 44 # 32 # ?J @ 93 # rest)"
      using Cons.prems(1) [of x "44 # 32 # ?J @ 93 # rest" m] Cons.prems(4) n jx by (simp add: delim_def)
    have 2: "scan_array m g d (x # acc) (?J @ 93 # rest) = Inr (JList (rev (x # acc) @ xs), rest)"
    proof (rule Cons.IH)
      show "list_all plain_json xs" using Cons.prems(2) by simp
      show "xs \<noteq> []" using Cons by simp
      show "2 * length ?J + 1 < m" using Cons.prems(4) n jx by simp
      show "scan_once n g d (json_dumps x @ rest) = Inr (x, rest)"
        if "x \<in> set xs" "delim rest" "2 * length (json_dumps x) < n" for x n rest
        using that Cons.prems(1) by simp
    qed
    have 3: "skip_ws (32 # ?J @ 93 # rest) = ?J @ 93 # rest"
      using J by (simp add: skip_ws_def is_ws_def)
    show ?thesis
      unfolding jx n using 1 2 3
      by (simp add: skip_ws_nonws is_ws_def expect_def)
  qed
qed


lemma enc_item_hd: "\<exists>c t. enc_item kv = c # t \<and> c = 34"
  by (simp add: enc_item_def encode_string_def)

lemma scan_object_join:
  assumes "\<And>k v n rest. (k, v) \<in> set kvs \<Longrightarrow> delim rest \<Longrightarrow> 2 * length (json_dumps v) < n \<Longrightarrow>
             scan_once n g d (json_dumps v @ rest) = Inr (v, rest)"
    and "list_all (\<lambda>kv. list_all plain_char (fst kv) \<and> plain_json (snd kv)) kvs" and "kvs \<noteq> []"
    and "2 * length (join (str '', '') (map enc_item kvs)) + 1 < n"
  shows "scan_object n g d acc (join (str '', '') (map enc_item kvs) @ 125 # rest)
           = Inr (JObj (dict_of_pairs (rev acc @ kvs)), rest)"
  using assms
proof (induction kvs arbitrary: n acc)
  case Nil
  then show ?case by simp
next
  case (Cons kv kvs)
  obtain k v where kv: "kv = (k, v)" by (cases kv)
  from Cons.prems(4) obtain m where n: "n = Suc m" by (cases n) auto
  have pk: "list_all plain_char k" and pv: "plain_json v" using Cons.prems(2) kv by simp_all
  obtain c t where v: "json_dumps v = c # t" "\<not> is_ws c" using json_dumps_hd [OF pv] by blast
  have key: "scanstring [] (concat (map escape_char k) @ 34 # 58 # 32 # json_dumps v @ R)
               = Some (k, 58 # 32 # json_dumps v @ R)" for R
    using scanstring_plain [OF pk, of "[]"] by simp
  have item: "enc_item kv @ R = 34 # concat (map escape_char k) @ 34 # 58 # 32 # json_dumps v @ R" for R
    by (simp add: enc_item_def kv encode_string_def sep_chars)
  have sk: "skip_ws (32 # json_dumps v @ R) = json_dumps v @ R" for R
    using v by (simp add: skip_ws_def is_ws_def)
  show ?case
  proof (cases kvs)
    case Nil
    have "scan_once m g d (json_dumps v @ 125 # rest) = Inr (v, 125 # rest)"
      using Cons.prems(1) [of k v "125 # rest" m] Cons.prems(4) n Nil kv
      by (simp add: delim_def enc_item_def)
    then show ?thesis
      using n Nil item [of "125 # rest"] key [of "125 # rest"] sk [of "125 # rest"] kv
      by (simp add: skip_ws_nonws is_ws_def expect_def)
  next
    case (Cons kv' kvs')
    let ?J = "join (str '', '') (map enc_item kvs)"
    have jx: "join (str '', '') (map enc_item (kv # kvs)) = enc_item kv @ 44 # 32 # ?J"
      using Cons by (simp add: sep_chars)
    obtain t' where J: "?J = 34 # t'"
      using join_hd [of kvs enc_item "\<lambda>c. c = 34" "str '', ''"] enc_item_hd [of kv'] Cons by auto
    have len: "length (enc_item kv) = length (json_dumps v) + length (encode_string k) + 2"
      by (simp add: enc_item_def kv sep_chars)
    have 1: "scan_once m g d (json_dumps v @ 44 # 32 # ?J @ 125 # rest) = Inr (v, 44 # 32 # ?J @ 125 # rest)"
      using Cons.prems(1) [of k v "44 # 32 # ?J @ 125 # rest" m] Cons.prems(4) n jx kv len
      by (simp add: delim_def)
    have 2: "scan_object m g d (kv # acc) (?J @ 125 # rest) = Inr (JObj (dict_of_pairs (rev (kv # acc) @ kvs)), rest)"
    proof (rule Cons.IH)
      show "list_all (\<lambda>kv. list_all plain_char (fst kv) \<and> plain_json (snd kv)) kvs"
        using Cons.prems(2) by simp
      show "kvs \<noteq> []" using Cons by simp
      show "2 * length ?J + 1 < m" using Cons.prems(4) n jx by simp
      show "scan_once n g d (json_dumps v @ rest) = Inr (v, rest)"
        if "(k, v) \<in> set kvs" "delim rest" "2 * length (json_dumps v) < n" for k v n rest
        using that Cons.prems(1) [of k v rest n] by simp
    qed
    have 3: "skip_ws (32 # ?J @ 125 # rest) = ?J @ 125 # rest"
      using J by (simp add: skip_ws_def is_ws_def)
    show ?thesis
      unfolding jx n
      using 1 2 3 item [of "44 # 32 # ?J @ 125 # rest"] key [of "44 # 32 # ?J @ 125 # rest"]
        sk [of "44 # 32 # ?J @ 125 # rest"] kv
      by (simp add: skip_ws_nonws is_ws_def expect_def)
  qed
qed

lemma dict_set_fresh: "k \<notin> fst ` set d \<Longrightarrow> dict_set k v d = d @ [(k, v)]"
  by (induction d) auto

lemma foldl_dict_set:
  "distinct (map fst kvs) \<Longrightarrow> fst ` set d \<inter> fst ` set kvs = {} \<Longrightarrow>
   foldl (\<lambda>d kv. dict_set (fst kv) (snd kv) d) d kvs = d @ kvs"
proof (induction kvs arbitrary: d)
  case Nil
  then show ?case by simp
next
  case (Cons kv kvs)
  have "dict_set (fst kv) (snd kv) d = d @ [kv]"
    using Cons.prems(2) dict_set_fresh [of "fst kv" d "snd kv"] by auto
  moreover have "foldl (\<lambda>d kv. dict_set (fst kv) (snd kv) d) (d @ [kv]) kvs = (d @ [kv]) @ kvs"
    using Cons.prems by (intro Cons.IH) (auto simp: image_Un)
  ultimately show ?case by simp
qed

lemma dict_of_pairs_distinct: "distinct (map fst kvs) \<Longrightarrow> dict_of_pairs kvs = kvs"
  using foldl_dict_set [of kvs "[]"] by (simp add: dict_of_pairs_def)

lemma json_dumps_obj: "json_dumps (JObj kvs) = 123 # join (str '', '') (map enc_item kvs) @ [125]"
proof -
  have "enc_item = (\<lambda>kv. encode_string (fst kv) @ str '': '' @ json_dumps (snd kv))"
    by (rule ext) (simp add: enc_item_def)
  then show ?thesis by simp
qed

lemma scan_once_dumps:
  "plain_json v \<Longrightarrow> fits g d v \<Longrightarrow> delim rest \<Longrightarrow> 2 * length (json_dumps v) < n \<Longrightarrow>
   scan_once n g d (json_dumps v @ rest) = Inr (v, rest)"
proof (induction v arbitrary: n d rest)
  case JNull
  then obtain m where "n = Suc m" by (cases n) auto
  then show ?case using scan_atom_literals(1) [of g rest] by (simp add: str_def)
next
  case (JBool b)
  then obtain m where "n = Suc m" by (cases n) auto
  then show ?case using scan_atom_literals(2,3) [of g rest] by (simp add: str_def)
next
  case (JInt i)
  then obtain m where n: "n = Suc m" by (cases n) auto
  obtain c t where r: "repr_int i = c # t" "c = 45 \<or> is_digit c" using repr_int_hd by blast
  then have "scan_once (Suc m) g d ((c # t) @ rest) = scan_atom g ((c # t) @ rest)"
    by (auto simp: is_digit_def)
  then show ?case using n r scan_atom_int [OF JInt.prems(3) JInt.prems(2)] by simp
next
  case (JFloat f)
  then show ?case by simp
next
  case (JStr s)
  then obtain m where "n = Suc m" by (cases n) auto
  then show ?case using scanstring_plain [of s "[]" rest] JStr.prems(1) by (simp add: encode_string_def)
next
  case (JList xs)
  then obtain m where n: "n = Suc m" by (cases n) auto
  from JList.prems(2) obtain d' where d: "d = Suc d'" by (cases d) auto
  show ?case
  proof (cases xs)
    case Nil
    then show ?thesis using n d by (simp add: skip_ws_def is_ws_def expect_def)
  next
    case (Cons y ys)
    let ?J = "join (str '', '') (map json_dumps xs)"
    have "plain_json y" using JList.prems(1) Cons by simp
    then obtain c t where J: "?J = c # t" "\<not> is_ws c" "c \<noteq> 93"
      using join_hd [of xs json_dumps "\<lambda>c. \<not> is_ws c \<and> c \<noteq> 93 \<and> c \<noteq> 125" "str '', ''"] json_dumps_hd [of y] Cons
      by auto
    have "scan_array m g d' [] (?J @ 93 # rest) = Inr (JList (rev [] @ xs), rest)"
    proof (rule scan_array_join)
      show "list_all plain_json xs" using JList.prems(1) by simp
      show "xs \<noteq> []" using Cons by simp
      show "2 * length ?J + 1 < m" using JList.prems(4) n by simp
      show "scan_once n g d' (json_dumps x @ rest) = Inr (x, rest)"
        if "x \<in> set xs" "delim rest" "2 * length (json_dumps x) < n" for x n rest
        using that JList.IH [of x d' rest n] JList.prems(1,2) d by (simp add: list_all_iff)
    qed
    then show ?thesis using n d J by (simp add: skip_ws_def is_ws_def expect_def)
  qed
next
  case (JObj kvs)
  then obtain m where n: "n = Suc m" by (cases n) auto
  from JObj.prems(2) obtain d' where d: "d = Suc d'" by (cases d) auto
  show ?case
  proof (cases kvs)
    case Nil
    then show ?thesis using n d by (simp add: skip_ws_def is_ws_def expect_def)
  next
    case (Cons kv kvs')
    let ?J = "join (str '', '') (map enc_item kvs)"
    obtain t where J: "?J = 34 # t"
      using join_hd [of kvs enc_item "\<lambda>c. c = 34" "str '', ''"] enc_item_hd [of kv] Cons by auto
    have "scan_object m g d' [] (?J @ 125 # rest) = Inr (JObj (dict_of_pairs (rev [] @ kvs)), rest)"
    proof (rule scan_object_join)
      show "list_all (\<lambda>kv. list_all plain_char (fst kv) \<and> plain_json (snd kv)) kvs"
        using JObj.prems(1) by simp
      show "kvs \<noteq> []" using Cons by simp
      show "2 * length ?J + 1 < m" using JObj.prems(4) n by (simp add: json_dumps_obj del: json_dumps.simps)
      show "scan_once n g d' (json_dumps v @ rest) = Inr (v, rest)"
        if "(k, v) \<in> set kvs" "delim rest" "2 * length (json_dumps v) < n" for k v n rest
      proof (rule JObj.IH [of "(k, v)" v])
        show "(k, v) \<in> set kvs" by (rule that)
        show "v \<in> Basic_BNFs.snds (k, v)" by simp
        show "plain_json v" using JObj.prems(1) that(1) by (auto simp: list_all_iff)
        show "fits g d' v" using JObj.prems(2) that(1) d by (auto simp: list_all_iff)
      qed (rule that)+
    qed
    then show ?thesis
      using n d J JObj.prems(1) dict_of_pairs_distinct [of kvs]
      by (simp add: json_dumps_obj skip_ws_def is_ws_def expect_def del: json_dumps.simps)
  qed
qed

lemma json_loads_dumps:
  "plain_json v \<Longrightarrow> fits g d v \<Longrightarrow> json_loads g d (json_dumps v) = Inr v"
proof -
  assume p: "plain_json v" and f: "fits g d v"
  obtain c t where h: "json_dumps v = c # t" "\<not> is_ws c" using json_dumps_hd [OF p] by blast
  have "scan_once (2 * length (json_dumps v) + 2) g d (json_dumps v @ []) = Inr (v, [])"
    by (rule scan_once_dumps [OF p f]) (simp_all add: delim_def)
  then show ?thesis using h by (simp add: json_loads_def skip_ws_def)
qed

subsection \<open>The call bound of \<open>json_loads\<close> is never reached\<close>

lemma skip_ws_length: "length (skip_ws s) \<le> length s"
  by (simp add: skip_ws_def length_dropWhile_le)

lemma expect_length: "expect x s = Some r \<Longrightarrow> length s = Suc (length r)"
  by (cases s) (auto simp: expect_def split: if_splits)

lemma hex4_shorter: "hex4 s = Some (u, r) \<Longrightarrow> length r < length s"
  by (induction s rule: hex4.induct) (auto split: option.splits)

lemma scanstring_shorter: "scanstring acc s = Some (x, r) \<Longrightarrow> length r < length s"
proof (induction acc s rule: scanstring.induct)
  case (1 acc)
  then show ?case by simp
next
  case (2 acc c cs)
  show ?case
  proof (cases "c = 34")
    case True
    with 2(6) show ?thesis by simp
  next
    case c34: False
    show ?thesis
    proof (cases "c = 92")
      case False
      with c34 2(5)[OF c34 False] 2(6) show ?thesis by (auto split: if_splits)
    next
      case True
      with c34 2(6) obtain e r0 where cs: "cs = e # r0" by (cases cs) auto
      show ?thesis
      proof (cases "e = 117")
        case False
        with c34 True cs 2(6) obtain y where y: "simple_escape e = Some y"
          "scanstring (y # acc) r0 = Some (x, r)"
          by (auto split: option.splits)
        from 2(4)[OF c34 True cs False y(1) y(2)] cs show ?thesis by simp
      next
        case e: True
        with c34 True cs 2(6) obtain u r1 where h: "hex4 r0 = Some (u, r1)"
          by (auto split: option.splits)
        note l1 = hex4_shorter [OF h]
        show ?thesis
        proof (cases "55296 \<le> u \<and> u \<le> 56319 \<and> take 2 r1 = [92, 117]")
          case False
          with c34 True cs e h 2(6) have s: "scanstring (u # acc) r1 = Some (x, r)"
            by (auto split: option.splits if_splits)
          from 2(3)[OF c34 True cs e h refl False s] l1 cs show ?thesis by simp
        next
          case pair: True
          with c34 True cs e h 2(6) obtain u2 r2 where h2: "hex4 (drop 2 r1) = Some (u2, r2)"
            by (auto split: option.splits)
          note l2 = hex4_shorter [OF h2]
          show ?thesis
          proof (cases "56320 \<le> u2 \<and> u2 \<le> 57343")
            case True
            with c34 \<open>c = 92\<close> cs e h pair h2 2(6)
            have s: "scanstring ((65536 + (u - 55296) * 1024 + (u2 - 56320)) # acc) r2 = Some (x, r)"
              by simp
            from 2(1)[OF c34 \<open>c = 92\<close> cs e h refl pair h2 refl True s] l1 l2 cs
            show ?thesis by simp
          next
            case False
            with c34 \<open>c = 92\<close> cs e h pair h2 2(6)
            have s: "scanstring (u # acc) r1 = Some (x, r)"
              by simp
            from 2(2)[OF c34 \<open>c = 92\<close> cs e h refl pair h2 refl False s] l1 cs
            show ?thesis by simp
          qed
        qed
      qed
    qed
  qed
qed


lemma literal_shorter: "literal w v s = Some (v', r) \<Longrightarrow> w \<noteq> [] \<Longrightarrow> length r < length s"
  by (cases s) (auto simp: literal_def startswith_def str_def split: if_splits)

lemma int_part_shorter: "int_part s = Some (ip, r) \<Longrightarrow> length r < length s"
  by (cases s) (auto simp: int_part_def length_dropWhile_le less_Suc_eq_le split: if_splits)

lemma digits1_shorter: "digits1 s = Some (ds, r) \<Longrightarrow> length r < length s"
  by (cases s) (auto simp: digits1_def length_dropWhile_le less_Suc_eq_le split: if_splits)

lemma frac_part_shorter: "frac_part s = Some (ds, r) \<Longrightarrow> length r < length s"
  by (cases s) (auto simp: frac_part_def split: if_splits dest!: digits1_shorter)

lemma exp_part_shorter: "exp_part s = Some (e, r) \<Longrightarrow> length r < length s"
  by (cases s; cases "tl s")
     (auto simp: exp_part_def split: if_splits dest!: digits1_shorter)

lemma match_number_shorter:
  assumes "match_number s = Some (v, r)"
  shows "length r < length s"
proof -
  define s1 where "s1 = (case s of [] \<Rightarrow> s | c # t \<Rightarrow> if c = 45 then t else s)"
  have l1: "length s1 \<le> length s" by (cases s) (auto simp: s1_def)
  from assms obtain ip s2 where ip: "int_part s1 = Some (ip, s2)"
    by (cases s) (auto simp: match_number_def s1_def split: option.splits if_splits)
  define s3 where "s3 = (case frac_part s2 of Some (ds, t) \<Rightarrow> t | None \<Rightarrow> s2)"
  define s4 where "s4 = (case exp_part s3 of Some (e, t) \<Rightarrow> t | None \<Rightarrow> s3)"
  have l3: "length s3 \<le> length s2"
    by (auto simp: s3_def split: option.splits dest!: frac_part_shorter)
  have l4: "length s4 \<le> length s3"
    by (auto simp: s4_def split: option.splits dest!: exp_part_shorter)
  have "r = s4"
    using assms ip
    by (cases s)
       (auto simp: match_number_def s1_def s3_def s4_def Let_def split: option.splits if_splits)
  with l1 l3 l4 int_part_shorter [OF ip] show ?thesis by simp
qed

lemma scan_atom_shorter: "scan_atom g s = Inr (v, r) \<Longrightarrow> length r < length s"
  by (auto simp: scan_atom_def decoded_def split: if_splits option.splits json.splits
      dest!: literal_shorter match_number_shorter)

lemma scan_shorter:
  "(scan_once n g d s = Inr (v, r) \<longrightarrow> length r < length s) \<and>
   (scan_array n g d acc s = Inr (v, r) \<longrightarrow> length r < length s) \<and>
   (scan_object n g d kacc s = Inr (v, r) \<longrightarrow> length r < length s)"
proof (induction n arbitrary: d s v r acc kacc)
  case 0
  show ?case by simp
next
  case (Suc n)
  have once: "length r < length s" if "scan_once (Suc n) g d s = Inr (v, r)"
  proof (cases s)
    case Nil
    with that show ?thesis by simp
  next
    case (Cons c cs)
    consider "c = 34" | "c = 123" | "c = 91" | "c \<noteq> 34" "c \<noteq> 123" "c \<noteq> 91" by blast
    then show ?thesis
    proof cases
      case 1
      with that Cons show ?thesis by (auto split: option.splits dest!: scanstring_shorter)
    next
      case 2
      with that Cons obtain d' where d: "d = Suc d'" by (cases d) auto
      show ?thesis
      proof (cases "expect 125 (skip_ws cs)")
        case (Some r')
        with that Cons 2 d show ?thesis
          using expect_length [OF Some] skip_ws_length [of cs] by auto
      next
        case None
        with that Cons 2 d have "scan_object n g d' [] (skip_ws cs) = Inr (v, r)" by simp
        with Suc skip_ws_length [of cs] Cons show ?thesis by fastforce
      qed
    next
      case 3
      with that Cons obtain d' where d: "d = Suc d'" by (cases d) auto
      show ?thesis
      proof (cases "expect 93 (skip_ws cs)")
        case (Some r')
        with that Cons 3 d show ?thesis
          using expect_length [OF Some] skip_ws_length [of cs] by auto
      next
        case None
        with that Cons 3 d have "scan_array n g d' [] (skip_ws cs) = Inr (v, r)" by simp
        with Suc skip_ws_length [of cs] Cons show ?thesis by fastforce
      qed
    next
      case 4
      with that Cons show ?thesis using scan_atom_shorter [of g s v r] by simp
    qed
  qed
  have array: "length r < length s" if "scan_array (Suc n) g d acc s = Inr (v, r)"
  proof -
    from that obtain x r1 where x: "scan_once n g d s = Inr (x, r1)" by (auto split: sum.splits)
    with Suc have l1: "length r1 < length s" by blast
    show ?thesis
    proof (cases "expect 93 (skip_ws r1)")
      case (Some r')
      with that x l1 show ?thesis
        using expect_length [OF Some] skip_ws_length [of r1] by auto
    next
      case None
      with that x obtain r' where c: "expect 44 (skip_ws r1) = Some r'"
        "scan_array n g d (x # acc) (skip_ws r') = Inr (v, r)"
        by (auto split: option.splits)
      with Suc have "length r < length (skip_ws r')" by blast
      with l1 expect_length [OF c(1)] skip_ws_length [of r1] skip_ws_length [of r']
      show ?thesis by simp
    qed
  qed
  have object: "length r < length s" if "scan_object (Suc n) g d kacc s = Inr (v, r)"
  proof -
    from that obtain s1 key s2 s3 x r1 where
      a: "expect 34 s = Some s1" "scanstring [] s1 = Some (key, s2)"
         "expect 58 (skip_ws s2) = Some s3" "scan_once n g d (skip_ws s3) = Inr (x, r1)"
      by (auto split: option.splits sum.splits)
    with Suc have "length r1 < length (skip_ws s3)" by blast
    with expect_length [OF a(1)] scanstring_shorter [OF a(2)] expect_length [OF a(3)]
      skip_ws_length [of s2] skip_ws_length [of s3]
    have l1: "length r1 < length s" by simp
    show ?thesis
    proof (cases "expect 125 (skip_ws r1)")
      case (Some r')
      with that a l1 show ?thesis
        using expect_length [OF Some] skip_ws_length [of r1] by auto
    next
      case None
      with that a obtain r' where c: "expect 44 (skip_ws r1) = Some r'"
        "scan_object n g d ((key, x) # kacc) (skip_ws r') = Inr (v, r)"
        by (auto split: option.splits)
      with Suc have "length r < length (skip_ws r')" by blast
      with l1 expect_length [OF c(1)] skip_ws_length [of r1] skip_ws_length [of r']
      show ?thesis by simp
    qed
  qed
  from once array object show ?case by blast
qed


lemma scan_fuel:
  "(2 * length s < n \<longrightarrow> 2 * length s < m \<longrightarrow> scan_once n g d s = scan_once m g d s) \<and>
   (2 * length s + 1 < n \<longrightarrow> 2 * length s + 1 < m \<longrightarrow> scan_array n g d acc s = scan_array m g d acc s) \<and>
   (2 * length s + 1 < n \<longrightarrow> 2 * length s + 1 < m \<longrightarrow>
      scan_object n g d kacc s = scan_object m g d kacc s)"
proof (induction n arbitrary: m d s acc kacc)
  case 0
  show ?case by simp
next
  case (Suc n)
  note once_IH = Suc [THEN conjunct1, rule_format]
  note array_IH = Suc [THEN conjunct2, THEN conjunct1, rule_format]
  note object_IH = Suc [THEN conjunct2, THEN conjunct2, rule_format]
  show ?case
  proof (cases m)
    case 0
    then show ?thesis by (simp split: option.splits)
  next
    case m: (Suc m')
    have once: "scan_once (Suc n) g d s = scan_once (Suc m') g d s"
      if b: "2 * length s < Suc n" "2 * length s < Suc m'"
    proof (cases s)
      case Nil
      then show ?thesis by (simp split: option.splits)
    next
      case (Cons c cs)
      have l: "2 * length (skip_ws cs) + 1 < n" "2 * length (skip_ws cs) + 1 < m'"
        using b Cons skip_ws_length [of cs] by simp_all
      have "scan_object n g d' [] (skip_ws cs) = scan_object m' g d' [] (skip_ws cs)" for d'
        by (rule object_IH [OF l])
      moreover have "scan_array n g d' [] (skip_ws cs) = scan_array m' g d' [] (skip_ws cs)" for d'
        by (rule array_IH [OF l])
      ultimately show ?thesis using Cons by (simp split: option.splits nat.splits)
    qed
    have array: "scan_array (Suc n) g d acc s = scan_array (Suc m') g d acc s"
      if b: "2 * length s + 1 < Suc n" "2 * length s + 1 < Suc m'"
    proof -
      have e: "scan_once n g d s = scan_once m' g d s" using b by (intro once_IH) simp_all
      show ?thesis
      proof (cases "scan_once m' g d s")
        case (Inl err)
        with e show ?thesis by simp
      next
        case (Inr p)
        obtain x r1 where p: "p = (x, r1)" by (cases p)
        have l1: "length r1 < length s"
          using scan_shorter [of m' g d s x r1] Inr p by simp
        show ?thesis
        proof (cases "expect 44 (skip_ws r1)")
          case None
          with e Inr p show ?thesis by (simp split: option.splits)
        next
          case c: (Some r')
          have "length r' < length r1"
            using expect_length [OF c] skip_ws_length [of r1] by simp
          with l1 b skip_ws_length [of r'] have l:
            "2 * length (skip_ws r') + 1 < n" "2 * length (skip_ws r') + 1 < m'"
            by simp_all
          have "scan_array n g d (x # acc) (skip_ws r') = scan_array m' g d (x # acc) (skip_ws r')"
            by (rule array_IH [OF l])
          with e Inr p c show ?thesis by (simp split: option.splits)
        qed
      qed
    qed
    have object: "scan_object (Suc n) g d kacc s = scan_object (Suc m') g d kacc s"
      if b: "2 * length s + 1 < Suc n" "2 * length s + 1 < Suc m'"
    proof (cases "expect 34 s")
      case None
      then show ?thesis by (simp split: option.splits)
    next
      case s1: (Some s1)
      show ?thesis
      proof (cases "scanstring [] s1")
        case None
        with s1 show ?thesis by (simp split: option.splits)
      next
        case (Some q)
        obtain key s2 where q: "q = (key, s2)" by (cases q)
        show ?thesis
        proof (cases "expect 58 (skip_ws s2)")
          case None
          with s1 Some q show ?thesis by (simp split: option.splits)
        next
          case s3: (Some s3)
          have l3: "length (skip_ws s3) + 2 < length s"
            using expect_length [OF s1] scanstring_shorter [of "[]" s1 key s2] Some q
              expect_length [OF s3] skip_ws_length [of s2] skip_ws_length [of s3]
            by simp
          have e: "scan_once n g d (skip_ws s3) = scan_once m' g d (skip_ws s3)"
            using b l3 by (intro once_IH) simp_all
          show ?thesis
          proof (cases "scan_once m' g d (skip_ws s3)")
            case (Inl err)
            with e s1 Some q s3 show ?thesis by simp
          next
            case v: (Inr p)
            obtain x r1 where p: "p = (x, r1)" by (cases p)
            have l1: "length r1 < length (skip_ws s3)"
              using scan_shorter [of m' g d "skip_ws s3" x r1] v p by simp
            show ?thesis
            proof (cases "expect 44 (skip_ws r1)")
              case None
              with e s1 Some q s3 v p show ?thesis by (simp split: option.splits)
            next
              case c: (Some r')
              have "length r' < length r1"
                using expect_length [OF c] skip_ws_length [of r1] by simp
              with l1 l3 b skip_ws_length [of r'] have l:
                "2 * length (skip_ws r') + 1 < n" "2 * length (skip_ws r') + 1 < m'"
                by simp_all
              have "scan_object n g d ((key, x) # kacc) (skip_ws r') =
                    scan_object m' g d ((key, x) # kacc) (skip_ws r')"
                by (rule object_IH [OF l])
              with e s1 Some q s3 v p c show ?thesis by (simp split: option.splits)
            qed
          qed
        qed
      qed
    qed
    from once array object m show ?thesis by blast
  qed
qed

text \<open>
  Any larger bound gives the same result: the answer of \<open>json_loads\<close>, value or exception,
  is decided by the text and the two limits, never by the bound.
\<close>

lemma json_loads_any_bound:
  assumes "2 * length s < n"
  shows "json_loads g d s =
           (case scan_once n g d (skip_ws s) of
              Inl e \<Rightarrow> Inl e
            | Inr (v, r) \<Rightarrow> if skip_ws r = [] then Inr v else Inl JSONDecodeError)"
proof -
  have "scan_once (2 * length s + 2) g d (skip_ws s) = scan_once n g d (skip_ws s)"
    using assms skip_ws_length [of s]
    by (intro scan_fuel [THEN conjunct1, rule_format]) simp_all
  then show ?thesis by (simp add: json_loads_def)
qed

subsection \<open>Keys and literals\<close>

lemma str_eq_iff: "str a = str b \<longleftrightarrow> a = b"
  by (simp add: str_def inj_map_eq_map inj_on_def)

lemma str_nonempty: "str a = [] \<longleftrightarrow> a = []"
  by (simp add: str_def)

subsection \<open>The renderer does not fail on a typed report\<close>

lemma for_each_ok:
  "(\<And>x. x \<in> set xs \<Longrightarrow> \<exists>fs. body x = Some fs) \<Longrightarrow> \<exists>fs. for_each body xs = Some fs"
proof (induction xs)
  case Nil
  then show ?case by simp
next
  case (Cons x xs)
  then obtain fs gs where "body x = Some fs" "for_each body xs = Some gs"
    by (metis list.set_intros)
  then show ?case by simp
qed

lemma present_nonempty_list:
  "optional d k (list_of P) \<Longrightarrow>
   present_nonempty (JObj d) k = Some (case map_of d k of Some (JList xs) \<Rightarrow> xs \<noteq> [] | _ \<Rightarrow> False)"
  by (auto simp: optional_def present_nonempty_def dict_get_def subscript_def
      split: option.splits json.splits)

lemma bullets_list:
  "map_of d k = Some (JList xs) \<Longrightarrow>
   bullets (JObj d) k = Some (map (\<lambda>item. Paragraph [Lit bullet, Val item] normal_style) xs)"
  by (simp add: bullets_def subscript_def)

lemma sub_list_ok: "optional d k (list_of P) \<Longrightarrow> \<exists>fs. sub_list (JObj d) k title = Some fs"
  by (auto simp: sub_list_def present_nonempty_list bullets_list split: option.splits json.splits)

lemma bucket_ok: "optional d k (list_of P) \<Longrightarrow> \<exists>fs. bucket (JObj d) k title after = Some fs"
  by (auto simp: bucket_def present_nonempty_list bullets_list split: option.splits json.splits)

lemma score_color_ok: "is_int v \<Longrightarrow> \<exists>b. score_color v = Some b"
  by (cases v) (simp_all add: score_color_def)

lemma criterion_item_ok:
  assumes "criterion_shape c"
  shows "\<exists>fs. criterion_item c = Some fs"
proof -
  from assms obtain d where c: "c = JObj d" by (cases c) auto
  have sp: "is_int (case map_of d (str ''score_percentage'') of None \<Rightarrow> JInt 0 | Some v \<Rightarrow> v)"
    using assms c by (auto simp: optional_def split: option.splits)
  obtain b where b: "score_color (case map_of d (str ''score_percentage'') of None \<Rightarrow> JInt 0 | Some v \<Rightarrow> v) = Some b"
    using score_color_ok [OF sp] by blast
  obtain s1 where s1: "sub_list (JObj d) (str ''strengths'') (str ''<b>Strengths:</b>'') = Some s1"
    using assms c sub_list_ok [of d "str ''strengths''" is_str] by auto
  obtain s2 where s2: "sub_list (JObj d) (str ''deficiencies'') (str ''<b>Areas Needing Improvement:</b>'') = Some s2"
    using assms c sub_list_ok [of d "str ''deficiencies''" is_str] by auto
  obtain s3 where s3: "sub_list (JObj d) (str ''recommendations'') (str ''<b>Specific Recommendations:</b>'') = Some s3"
    using assms c sub_list_ok [of d "str ''recommendations''" is_str] by auto
  show ?thesis
    unfolding c criterion_item_def by (simp add: dict_get_def b s1 s2 s3)
qed

lemma deficiency_item_ok: "deficiency_shape c \<Longrightarrow> \<exists>fs. deficiency_item (i, c) = Some fs"
  by (cases c)
     (auto simp: deficiency_item_def dict_get_def subscript_def optional_def
       split: option.splits json.splits elim!: is_str.elims)

lemma strength_item_ok: "strength_shape c \<Longrightarrow> \<exists>fs. strength_item (i, c) = Some fs"
  by (cases c)
     (auto simp: strength_item_def dict_get_def subscript_def optional_def
       split: option.splits json.splits)


lemma enumerate_snd: "p \<in> set (enumerate n xs) \<Longrightarrow> snd p \<in> set xs"
  by (cases p) (auto simp: in_set_enumerate_eq)

lemma deficiencies_section_ok:
  assumes "optional d (str ''critical_deficiencies'') (list_of deficiency_shape)"
  shows "\<exists>fs. deficiencies_section (JObj d) = Some fs"
proof (cases "map_of d (str ''critical_deficiencies'')")
  case None
  then show ?thesis by (simp add: deficiencies_section_def present_nonempty_def dict_get_def)
next
  case (Some v)
  with assms obtain xs where v: "v = JList xs" "list_all deficiency_shape xs"
    by (cases v) (auto simp: optional_def)
  have "\<exists>fs. for_each deficiency_item (enumerate 1 xs) = Some fs"
  proof (rule for_each_ok)
    fix p assume "p \<in> set (enumerate 1 xs)"
    then have "deficiency_shape (snd p)" using v(2) enumerate_snd [of p 1 xs] by (simp add: list_all_iff)
    then show "\<exists>fs. deficiency_item p = Some fs" using deficiency_item_ok [of "snd p" "fst p"] by simp
  qed
  then show ?thesis
    using Some v by (auto simp: deficiencies_section_def present_nonempty_def dict_get_def subscript_def)
qed

lemma criteria_section_ok:
  assumes "optional d (str ''criteria'') (list_of criterion_shape)"
  shows "\<exists>fs. criteria_section (JObj d) = Some fs"
proof (cases "map_of d (str ''criteria'')")
  case None
  then show ?thesis by (simp add: criteria_section_def present_nonempty_def dict_get_def)
next
  case (Some v)
  with assms obtain xs where v: "v = JList xs" "list_all criterion_shape xs"
    by (cases v) (auto simp: optional_def)
  have "\<exists>fs. for_each criterion_item xs = Some fs"
    using v(2) by (intro for_each_ok criterion_item_ok) (simp add: list_all_iff)
  then show ?thesis
    using Some v by (auto simp: criteria_section_def present_nonempty_def dict_get_def subscript_def)
qed

lemma strengths_section_ok:
  assumes "optional d (str ''strengths_to_build'') (list_of strength_shape)"
  shows "\<exists>fs. strengths_section (JObj d) = Some fs"
proof (cases "map_of d (str ''strengths_to_build'')")
  case None
  then show ?thesis by (simp add: strengths_section_def present_nonempty_def dict_get_def)
next
  case (Some v)
  with assms obtain xs where v: "v = JList xs" "list_all strength_shape xs"
    by (cases v) (auto simp: optional_def)
  have "\<exists>fs. for_each strength_item (enumerate 1 xs) = Some fs"
  proof (rule for_each_ok)
    fix p assume "p \<in> set (enumerate 1 xs)"
    then have "strength_shape (snd p)" using v(2) enumerate_snd [of p 1 xs] by (simp add: list_all_iff)
    then show "\<exists>fs. strength_item p = Some fs" using strength_item_ok [of "snd p" "fst p"] by simp
  qed
  then show ?thesis
    using Some v by (auto simp: strengths_section_def present_nonempty_def dict_get_def subscript_def)
qed

lemma struct_field_ok: "optional d k is_str \<Longrightarrow> \<exists>fs. struct_field (JObj d) k title after = Some fs"
  by (auto simp: struct_field_def dict_get_def optional_def split: option.splits elim!: is_str.elims)

lemma structural_section_ok:
  assumes "optional d (str ''structural_analysis'') structural_shape"
  shows "\<exists>fs. structural_section (JObj d) = Some fs"
proof (cases "map_of d (str ''structural_analysis'')")
  case None
  then show ?thesis by (simp add: structural_section_def dict_get_def)
next
  case (Some v)
  with assms obtain s where v: "v = JObj s" "structural_shape (JObj s)"
    by (cases v) (auto simp: optional_def)
  obtain a where a: "struct_field (JObj s) (str ''organization'') (str ''<b>Organization:</b>'') [Spacer 1 10] = Some a"
    using v(2) struct_field_ok [of s "str ''organization''"] by auto
  obtain b where b: "struct_field (JObj s) (str ''argument_development'') (str ''<b>Argument Development:</b>'') [Spacer 1 10] = Some b"
    using v(2) struct_field_ok [of s "str ''argument_development''"] by auto
  obtain c where c: "struct_field (JObj s) (str ''technical_compliance'') (str ''<b>Technical Compliance:</b>'') [] = Some c"
    using v(2) struct_field_ok [of s "str ''technical_compliance''"] by auto
  show ?thesis
    using Some v(1) by (simp add: structural_section_def dict_get_def subscript_def a b c)
qed

lemma revision_section_ok:
  assumes "optional d (str ''revision_recommendations'') revision_shape"
  shows "\<exists>fs. revision_section (JObj d) = Some fs"
proof (cases "map_of d (str ''revision_recommendations'')")
  case None
  then show ?thesis by (simp add: revision_section_def dict_get_def)
next
  case (Some v)
  with assms obtain s where v: "v = JObj s" "revision_shape (JObj s)"
    by (cases v) (auto simp: optional_def)
  obtain a where a: "bucket (JObj s) (str ''high_priority'') (str ''<b>High Priority (Do First):</b>'') [Spacer 1 10] = Some a"
    using v(2) bucket_ok [of s "str ''high_priority''" is_str] by auto
  obtain b where b: "bucket (JObj s) (str ''content_improvements'') (str ''<b>Content Improvements:</b>'') [Spacer 1 10] = Some b"
    using v(2) bucket_ok [of s "str ''content_improvements''" is_str] by auto
  obtain c where c: "bucket (JObj s) (str ''structural_changes'') (str ''<b>Structural Changes:</b>'') [Spacer 1 10] = Some c"
    using v(2) bucket_ok [of s "str ''structural_changes''" is_str] by auto
  obtain e where e: "bucket (JObj s) (str ''technical_fixes'') (str ''<b>Technical Fixes:</b>'') [] = Some e"
    using v(2) bucket_ok [of s "str ''technical_fixes''" is_str] by auto
  show ?thesis
    using Some v(1) by (simp add: revision_section_def dict_get_def subscript_def a b c e)
qed

lemma status_color_str:
  "status_color (JStr s) =
     Some (if contains (str ''Ready'') s then green
           else if contains (str ''Minor'') s then orange else red)"
  by (simp add: status_color_def)

lemma readiness_section_ok:
  assumes "optional d (str ''readiness_assessment'') readiness_shape"
  shows "\<exists>fs. readiness_section (JObj d) = Some fs"
proof (cases "map_of d (str ''readiness_assessment'')")
  case None
  then show ?thesis by (simp add: readiness_section_def dict_get_def)
next
  case (Some v)
  with assms obtain s where v: "v = JObj s" "readiness_shape (JObj s)"
    by (cases v) (auto simp: optional_def)
  obtain st where st: "(case map_of s (str ''status'') of None \<Rightarrow> JStr (str ''Not Assessed'') | Some v \<Rightarrow> v) = JStr st"
    using v(2) by (auto simp: optional_def split: option.splits elim!: is_str.elims)
  have pn: "present_nonempty (JObj s) (str ''key_barriers'') =
      Some (case map_of s (str ''key_barriers'') of Some (JList xs) \<Rightarrow> xs \<noteq> [] | _ \<Rightarrow> False)"
    using v(2) present_nonempty_list [of s "str ''key_barriers''" is_str] by simp
  show ?thesis
    using Some v(1)
    by (auto simp: readiness_section_def dict_get_def subscript_def st status_color_str pn bullets_list
        split: option.splits json.splits)
qed

lemma title_block_ok: "\<exists>fs. title_block e (JObj d) = Some fs"
  by (simp add: title_block_def dict_get_def)

lemma footer_ok: "\<exists>fs. footer e (JObj d) = Some fs"
  by (simp add: footer_def dict_get_def)

lemma summary_section_ok:
  assumes "optional d (str ''summary'') is_str" "optional d (str ''grade_justification'') is_str"
  shows "\<exists>fs. summary_section (JObj d) = Some fs"
  using assms
  by (auto simp: summary_section_def dict_get_def optional_def split: option.splits elim!: is_str.elims)

lemma generate_pdf_report_ok:
  assumes "report_fields d"
  shows "\<exists>story. generate_pdf_report e (JObj d) = Some story"
proof -
  obtain s1 where s1: "title_block e (JObj d) = Some s1" using title_block_ok by blast
  obtain s2 where s2: "summary_section (JObj d) = Some s2"
    using assms summary_section_ok by (auto simp: report_fields_def)
  obtain s3 where s3: "deficiencies_section (JObj d) = Some s3"
    using assms deficiencies_section_ok by (auto simp: report_fields_def)
  obtain s4 where s4: "criteria_section (JObj d) = Some s4"
    using assms criteria_section_ok by (auto simp: report_fields_def)
  obtain s5 where s5: "strengths_section (JObj d) = Some s5"
    using assms strengths_section_ok by (auto simp: report_fields_def)
  obtain s6 where s6: "structural_section (JObj d) = Some s6"
    using assms structural_section_ok by (auto simp: report_fields_def)
  obtain s7 where s7: "revision_section (JObj d) = Some s7"
    using assms revision_section_ok by (auto simp: report_fields_def)
  obtain s8 where s8: "readiness_section (JObj d) = Some s8"
    using assms readiness_section_ok by (auto simp: report_fields_def)
  obtain s9 where s9: "footer e (JObj d) = Some s9" using footer_ok by blast
  show ?thesis by (simp add: generate_pdf_report_def s1 s2 s3 s4 s5 s6 s7 s8 s9)
qed


subsection \<open>Where the heading of the criteria section can come from\<close>

lemma for_each_avoids:
  assumes "\<And>x fs. x \<in> set xs \<Longrightarrow> body x = Some fs \<Longrightarrow> h \<notin> set fs"
    and "for_each body xs = Some fs"
  shows "h \<notin> set fs"
  using assms
proof (induction xs arbitrary: fs)
  case Nil
  then show ?case by simp
next
  case (Cons x xs)
  from Cons.prems(2) obtain a b where ab: "body x = Some a" "for_each body xs = Some b" "fs = a @ b"
    by (auto split: Option.bind_splits)
  have "h \<notin> set a" using Cons.prems(1) [of x a] ab(1) by simp
  moreover have "h \<notin> set b"
  proof (rule Cons.IH [OF _ ab(2)])
    fix y gs assume "y \<in> set xs" "body y = Some gs"
    then show "h \<notin> set gs" using Cons.prems(1) [of y gs] by simp
  qed
  ultimately show ?case using ab(3) by simp
qed

lemma bullets_avoid: "bullets d k = Some fs \<Longrightarrow> criteria_heading \<notin> set fs"
  by (auto simp: bullets_def criteria_heading_def split: Option.bind_splits)

lemma deficiency_item_avoids: "deficiency_item p = Some fs \<Longrightarrow> criteria_heading \<notin> set fs"
  by (cases p) (auto simp: deficiency_item_def criteria_heading_def split: Option.bind_splits if_splits)

lemma strength_item_avoids: "strength_item p = Some fs \<Longrightarrow> criteria_heading \<notin> set fs"
  by (cases p) (auto simp: strength_item_def criteria_heading_def split: Option.bind_splits if_splits)

lemma title_block_avoids: "title_block e r = Some fs \<Longrightarrow> criteria_heading \<notin> set fs"
  by (auto simp: title_block_def criteria_heading_def split: Option.bind_splits)

lemma footer_avoids: "footer e r = Some fs \<Longrightarrow> criteria_heading \<notin> set fs"
  by (auto simp: footer_def criteria_heading_def str_eq_iff split: Option.bind_splits)

lemma paragraph_of_normal: "paragraph_of v normal_style \<noteq> Some (Paragraph t heading_style)"
  by (cases v) auto

lemma summary_section_avoids: "summary_section r = Some fs \<Longrightarrow> criteria_heading \<notin> set fs"
  by (auto simp: summary_section_def criteria_heading_def str_eq_iff paragraph_of_normal
      split: Option.bind_splits if_splits)

lemma deficiencies_section_avoids:
  assumes "deficiencies_section r = Some fs"
  shows "criteria_heading \<notin> set fs"
proof (cases "present_nonempty r (str ''critical_deficiencies'')")
  case None
  with assms show ?thesis by (simp add: deficiencies_section_def)
next
  case (Some shown)
  show ?thesis
  proof (cases shown)
    case False
    with Some assms show ?thesis by (simp add: deficiencies_section_def)
  next
    case True
    with Some assms obtain w items body where
      b: "for_each deficiency_item (enumerate 1 items) = Some body"
      and fs: "fs = [Paragraph [Lit (str ''Critical Deficiencies'')] heading_style,
                 Paragraph [Lit (str ''These issues require immediate attention:'')] subheading_style,
                 Spacer 1 10] @ body"
      by (auto simp: deficiencies_section_def split: Option.bind_splits)
    have "criteria_heading \<notin> set body"
      using for_each_avoids [OF _ b] deficiency_item_avoids by blast
    then show ?thesis using fs by (simp add: criteria_heading_def str_eq_iff)
  qed
qed

lemma strengths_section_avoids:
  assumes "strengths_section r = Some fs"
  shows "criteria_heading \<notin> set fs"
proof (cases "present_nonempty r (str ''strengths_to_build'')")
  case None
  with assms show ?thesis by (simp add: strengths_section_def)
next
  case (Some shown)
  show ?thesis
  proof (cases shown)
    case False
    with Some assms show ?thesis by (simp add: strengths_section_def)
  next
    case True
    with Some assms obtain w items body where
      b: "for_each strength_item (enumerate 1 items) = Some body"
      and fs: "fs = [PageBreak, Paragraph [Lit (str ''Key Strengths to Build Upon'')] heading_style] @ body"
      by (auto simp: strengths_section_def split: Option.bind_splits)
    have "criteria_heading \<notin> set body"
      using for_each_avoids [OF _ b] strength_item_avoids by blast
    then show ?thesis using fs by (simp add: criteria_heading_def str_eq_iff)
  qed
qed

lemma struct_field_avoids:
  "struct_field s k title after = Some fs \<Longrightarrow> criteria_heading \<notin> set after \<Longrightarrow>
   criteria_heading \<notin> set fs"
  by (auto simp: struct_field_def criteria_heading_def paragraph_of_normal
      split: Option.bind_splits if_splits)

lemma structural_section_avoids:
  "structural_section r = Some fs \<Longrightarrow> criteria_heading \<notin> set fs"
  by (auto simp: structural_section_def split: Option.bind_splits if_splits
      dest!: struct_field_avoids) (simp_all add: criteria_heading_def str_eq_iff)

lemma bucket_avoids:
  assumes "bucket s k title after = Some fs" and "criteria_heading \<notin> set after"
  shows "criteria_heading \<notin> set fs"
proof (cases "present_nonempty s k = Some True")
  case True
  with assms(1) obtain bs where bs: "bullets s k = Some bs"
    and fs: "fs = Paragraph [Lit title] subheading_style # bs @ after"
    by (auto simp: bucket_def split: Option.bind_splits)
  show ?thesis using bullets_avoid [OF bs] assms(2) unfolding fs by (simp add: criteria_heading_def)
next
  case False
  with assms(1) have "fs = []" by (auto simp: bucket_def split: Option.bind_splits if_splits)
  then show ?thesis by simp
qed

lemma revision_section_avoids:
  "revision_section r = Some fs \<Longrightarrow> criteria_heading \<notin> set fs"
  by (auto simp: revision_section_def split: Option.bind_splits if_splits
      dest!: bucket_avoids) (simp_all add: criteria_heading_def str_eq_iff)

lemma readiness_section_avoids:
  "readiness_section r = Some fs \<Longrightarrow> criteria_heading \<notin> set fs"
  by (auto simp: readiness_section_def bullets_def criteria_heading_def str_eq_iff
      split: Option.bind_splits if_splits)

lemma criteria_section_absent:
  "map_of d (str ''criteria'') = None \<Longrightarrow> criteria_section (JObj d) = Some []"
  by (simp add: criteria_section_def present_nonempty_def dict_get_def)

lemma no_criteria_no_heading:
  assumes "map_of d (str ''criteria'') = None"
    and "generate_pdf_report e (JObj d) = Some story"
  shows "criteria_heading \<notin> set story"
proof -
  from assms(2) obtain s1 s2 s3 s4 s5 s6 s7 s8 s9 where
    s: "title_block e (JObj d) = Some s1" "summary_section (JObj d) = Some s2"
       "deficiencies_section (JObj d) = Some s3" "criteria_section (JObj d) = Some s4"
       "strengths_section (JObj d) = Some s5" "structural_section (JObj d) = Some s6"
       "revision_section (JObj d) = Some s7" "readiness_section (JObj d) = Some s8"
       "footer e (JObj d) = Some s9"
    and story: "story = s1 @ s2 @ s3 @ s4 @ s5 @ s6 @ s7 @ s8 @ s9"
    by (auto simp: generate_pdf_report_def split: Option.bind_splits)
  have "s4 = []" using criteria_section_absent [OF assms(1)] s(4) by simp
  then show ?thesis
    using s title_block_avoids summary_section_avoids deficiencies_section_avoids
      strengths_section_avoids structural_section_avoids revision_section_avoids
      readiness_section_avoids footer_avoids
    unfolding story by auto
qed

subsection \<open>The per-criterion section of a fallback or degraded report\<close>

lemma fallback_is_report:
  "\<exists>d. fallback_report = JObj d \<and> report_fields d \<and> map_of d (str ''criteria'') = None"
  by (simp add: fallback_report_def report_fields_def optional_def str_eq_iff)

lemma degraded_is_report:
  "\<exists>d. degraded_report raw = JObj d \<and> report_fields d \<and> map_of d (str ''criteria'') = None"
  by (simp add: degraded_report_def report_fields_def optional_def str_eq_iff)

lemma renders_without_heading:
  assumes "\<exists>d. r = JObj d \<and> report_fields d \<and> map_of d (str ''criteria'') = None"
  shows "criteria_section r = Some [] \<and>
         (\<exists>story. generate_pdf_report e r = Some story \<and> criteria_heading \<notin> set story)"
proof -
  from assms obtain d where d: "r = JObj d" "report_fields d" "map_of d (str ''criteria'') = None"
    by blast
  obtain story where s: "generate_pdf_report e (JObj d) = Some story"
    using generate_pdf_report_ok [OF d(2)] by blast
  show ?thesis
    using s no_criteria_no_heading [OF d(3) s] criteria_section_absent [OF d(3)] d(1) by simp
qed

text \<open>
  Claim C10: the fallback verdict and the degraded report hold their criteria under
  \<^verbatim>\<open>criteria_breakdown\<close> (three and one) and have no key \<^verbatim>\<open>criteria\<close>, the only key the
  per-criterion section reads; so the section is empty and the story of either report,
  which is built without failure, does not contain the heading of the section.
\<close>

theorem fallback_and_degraded_omit_criteria:
  \<open>subscript fallback_report (str ''criteria'') = None \<and>
   (\<exists>cs. subscript fallback_report (str ''criteria_breakdown'') = Some (JList cs) \<and> length cs = 3) \<and>
   subscript (degraded_report raw) (str ''criteria'') = None \<and>
   (\<exists>c. subscript (degraded_report raw) (str ''criteria_breakdown'') = Some (JList [c])) \<and>
   criteria_section fallback_report = Some [] \<and>
   criteria_section (degraded_report raw) = Some [] \<and>
   (\<exists>story. generate_pdf_report e fallback_report = Some story \<and> criteria_heading \<notin> set story) \<and>
   (\<exists>story. generate_pdf_report e (degraded_report raw) = Some story \<and>
            criteria_heading \<notin> set story)\<close>
proof -
  have 1: "subscript fallback_report (str ''criteria'') = None"
    "\<exists>cs. subscript fallback_report (str ''criteria_breakdown'') = Some (JList cs) \<and> length cs = 3"
    by (simp_all add: fallback_report_def subscript_def str_eq_iff)
  have 2: "subscript (degraded_report raw) (str ''criteria'') = None"
    "\<exists>c. subscript (degraded_report raw) (str ''criteria_breakdown'') = Some (JList [c])"
    by (simp_all add: degraded_report_def subscript_def str_eq_iff)
  show ?thesis
    using 1 2 renders_without_heading [OF fallback_is_report, of e]
      renders_without_heading [OF degraded_is_report, of raw e]
    by simp
qed


subsection \<open>The qualitative band\<close>





subsection \<open>The severity colour\<close>








subsection \<open>The executive summary\<close>

text \<open>
  Claim C6 at the report whose summary is the empty string: the executive summary is
  there, with an empty paragraph and without the fallback text, which only the report
  without a summary gets.
\<close>

theorem empty_summary_rendered_empty:
  \<open>summary_section (JObj [(str ''summary'', JStr [])]) =
     Some [Paragraph [Lit (str ''Executive Summary'')] heading_style,
           Paragraph [Lit []] normal_style,
           PageBreak] \<and>
   summary_section (JObj []) =
     Some [Paragraph [Lit (str ''Executive Summary'')] heading_style,
           Paragraph [Lit (str ''No summary available.'')] normal_style,
           PageBreak] \<and>
   generate_pdf_report e (JObj [(str ''summary'', JStr [])]) =
     do {
       s1 \<leftarrow> title_block e (JObj []);
       s9 \<leftarrow> footer e (JObj []);
       Some (s1 @ [Paragraph [Lit (str ''Executive Summary'')] heading_style,
                   Paragraph [Lit []] normal_style,
                   PageBreak] @ s9)
     } \<and>
   (\<exists>s1 s9. title_block e (JObj []) = Some s1 \<and> footer e (JObj []) = Some s9)\<close>
  by (simp add: generate_pdf_report_def title_block_def summary_section_def
      deficiencies_section_def criteria_section_def strengths_section_def structural_section_def
      revision_section_def readiness_section_def footer_def dict_get_def present_nonempty_def
      str_eq_iff)


subsection \<open>A report without a summary\<close>


subsection \<open>The provider's answer\<close>

lemma completion_plain: "list_all plain_char verdict \<Longrightarrow> plain_json (completion verdict)"
  by (simp add: completion_def str_def plain_char_def)

lemma four_more: "4 \<le> d \<Longrightarrow> \<exists>d'. d = Suc (Suc (Suc (Suc d')))"
  by (rule exI [of _ "d - 4"]) simp

lemma completion_fits: "4 \<le> d \<Longrightarrow> fits g d (completion verdict)"
proof -
  assume "4 \<le> d"
  then obtain d' where "d = Suc (Suc (Suc (Suc d')))" using four_more by blast
  then show ?thesis by (simp add: completion_def)
qed

lemma try_reply_completion:
  assumes "list_all plain_char verdict" and "\<not> raise_for_status status" and "\<not> no_body status"
    and "4 \<le> reply_depth lim"
  shows "try_reply lim (Response status (completion_body verdict)) = Some (clean_response verdict)"
  using json_loads_dumps [OF completion_plain [OF assms(1)] completion_fits [OF assms(4)],
      of "max_str_digits lim"] assms(2,3)
  by (simp add: try_reply_def completion_body_def response_text_def caught_def)
     (simp add: completion_def subscript_def str_eq_iff)

lemma loads_empty: "json_loads g d [] = Inl JSONDecodeError"
  by (simp add: json_loads_def skip_ws_def)

lemma provider_failed_no_reply: "provider_failed res \<Longrightarrow> try_reply lim res = None"
  by (cases res)
     (auto simp: provider_failed_def try_reply_def response_text_def no_body_def loads_empty caught_def)

lemma status_without_effect:
  assumes "\<not> raise_for_status status" and "\<not> no_body status"
  shows "try_reply lim (Response status body) = try_reply lim (Response 200 body)"
proof -
  have "\<not> raise_for_status 200" "\<not> no_body 200"
    by (simp_all add: raise_for_status_def no_body_def)
  with assms show ?thesis by (simp add: try_reply_def response_text_def)
qed

lemma fallback_plain: "plain_json fallback_report"
  by (simp add: fallback_report_def plain_char_def str_def)

lemma repr_nat_two_digits: "n < 100 \<Longrightarrow> length (repr_nat n) \<le> 2"
  by (subst repr_nat.simps, simp, subst repr_nat.simps, simp)

lemma short_nat: "g = 0 \<or> 2 \<le> g \<Longrightarrow> n < 100 \<Longrightarrow> \<not> too_long g (length (repr_nat n))"
  using repr_nat_two_digits [of n] by (auto simp: too_long_def)

lemma fallback_fits:
  assumes "4 \<le> d" and "g = 0 \<or> 640 \<le> g"
  shows "fits g d fallback_report"
proof -
  from assms(1) obtain d' where "d = Suc (Suc (Suc (Suc d')))" using four_more by blast
  moreover from assms(2) have "g = 0 \<or> 2 \<le> g" by auto
  ultimately show ?thesis by (simp add: fallback_report_def short_nat)
qed

lemma fallback_shape: "report_shape fallback_report"
  by (simp add: fallback_report_def report_fields_def optional_def required_def str_eq_iff)

lemma fallback_note:
  \<open>subscript fallback_report (str ''note'') =
     Some (JStr (str ''Using simulated analysis (OpenRouter unavailable)''))\<close>
  by (simp add: fallback_report_def subscript_def str_eq_iff)

lemma dumps_obj_second:
  "\<exists>t. json_dumps (JObj (kv # kvs)) = 123 # 34 # t"
  by (cases kvs) (simp_all add: encode_string_def)

lemma fallback_text_differs: "json_dumps fallback_report \<noteq> str ''{}''"
proof -
  obtain kv kvs where "fallback_report = JObj (kv # kvs)" by (simp add: fallback_report_def)
  then obtain t where "json_dumps fallback_report = 123 # 34 # t" using dumps_obj_second by metis
  then show ?thesis by (simp add: str_def)
qed

lemma clean_braces: "clean_response (str ''{}'') = str ''{}''"
proof -
  have "strip (str ''{}'') = str ''{}''"
    by (rule strip_fixed) (simp add: str_def isspace_def)
  then show ?thesis using clean_unfenced [of "str ''{}''"] sample_unfenced by simp
qed

lemma braces_plain: "list_all plain_char (str ''{}'')" "list_all plain_char (str ''{'')"
  by (simp_all add: str_def plain_char_def)

lemma sample_limits_fields:
  "max_str_digits sample_limits = 4300" "reply_depth sample_limits = 900"
  "verdict_depth sample_limits = 900"
  by (simp_all add: sample_limits_def)

text \<open>
  Claim C1, as the specification states it, fails: a response with status 300 is not a
  2xx response, yet \<^verbatim>\<open>raise_for_status\<close> lets it pass, and when its body is a chat
  completion the function returns the cleaned content, here \<^verbatim>\<open>{}\<close>, and not the fallback.
\<close>

theorem status_300_is_not_a_failure:
  \<open>\<not> (200 \<le> (300 :: nat) \<and> (300 :: nat) < 300) \<and>
   fst (analyze_with_openrouter sample_limits
          (\<lambda>prompt. Response 300 (completion_body (str ''{}'')))
          (str ''essay'') (str ''rubric'')) = str ''{}'' \<and>
   str ''{}'' \<noteq> json_dumps fallback_report\<close>
  using try_reply_completion [OF braces_plain(1), of 300 sample_limits] fallback_text_differs
  by (simp add: analyze_with_openrouter_def raise_for_status_def no_body_def clean_braces
      sample_limits_fields)

text \<open>
  Claim C1, amended: whenever the provider request fails, by a transport error, a
  timeout, a status that \<^verbatim>\<open>raise_for_status\<close> raises for (400 to 599) or a status that is
  no success and brings no body (below 200, or 304), the function returns, after one
  request and no more, the fixed text \<^verbatim>\<open>json.dumps\<close> of the fallback dictionary. This
  text parses back to that dictionary under every setting of the digit limit (none, or
  640 and more), given room for a nesting of 4; the dictionary has the shape of a
  Report, holds every field of the data model but \<^verbatim>\<open>criteria\<close>, and has a \<^verbatim>\<open>note\<close> field.
  Any other status that brings a body is handled as 200 is.
\<close>

theorem provider_failure_gives_fallback:
  assumes "provider_failed (provider (build_prompt assignment_text rubric_text))"
  shows \<open>analyze_with_openrouter lim provider assignment_text rubric_text =
           (json_dumps fallback_report, [build_prompt assignment_text rubric_text]) \<and>
         (4 \<le> d \<and> (g = 0 \<or> 640 \<le> g) \<longrightarrow>
            json_loads g d (json_dumps fallback_report) = Inr fallback_report) \<and>
         report_shape fallback_report \<and>
         list_all (\<lambda>k. subscript fallback_report k \<noteq> None)
           [str ''overall_score'', str ''overall_grade'', str ''critical_deficiencies'',
            str ''strengths_to_build'', str ''structural_analysis'',
            str ''revision_recommendations'', str ''grade_justification'',
            str ''readiness_assessment'', str ''summary''] \<and>
         subscript fallback_report (str ''note'') =
           Some (JStr (str ''Using simulated analysis (OpenRouter unavailable)'')) \<and>
         (\<not> raise_for_status status \<and> \<not> no_body status \<longrightarrow>
            try_reply lim (Response status body) = try_reply lim (Response 200 body))\<close>
proof -
  have 1: "analyze_with_openrouter lim provider assignment_text rubric_text =
           (json_dumps fallback_report, [build_prompt assignment_text rubric_text])"
    using provider_failed_no_reply [OF assms, of lim] by (simp add: analyze_with_openrouter_def)
  have 2: "4 \<le> d \<and> (g = 0 \<or> 640 \<le> g) \<longrightarrow>
            json_loads g d (json_dumps fallback_report) = Inr fallback_report"
    using json_loads_dumps [OF fallback_plain fallback_fits, of d g] by blast
  have 3: "list_all (\<lambda>k. subscript fallback_report k \<noteq> None)
           [str ''overall_score'', str ''overall_grade'', str ''critical_deficiencies'',
            str ''strengths_to_build'', str ''structural_analysis'',
            str ''revision_recommendations'', str ''grade_justification'',
            str ''readiness_assessment'', str ''summary'']"
    by (simp add: fallback_report_def subscript_def str_eq_iff)
  show ?thesis
    using 1 2 3 fallback_shape fallback_note status_without_effect [of status lim body] by blast
qed

theorem provider_failure_gives_fallback_witness:
  \<open>provider_failed ((\<lambda>prompt. Timeout) (build_prompt (str ''essay'') (str ''rubric''))) \<and>
   provider_failed ((\<lambda>prompt. Response 503 []) (build_prompt (str ''essay'') (str ''rubric''))) \<and>
   provider_failed ((\<lambda>prompt. Response 304 []) (build_prompt (str ''essay'') (str ''rubric''))) \<and>
   analyze_with_openrouter sample_limits (\<lambda>prompt. Timeout) (str ''essay'') (str ''rubric'') =
     (json_dumps fallback_report, [build_prompt (str ''essay'') (str ''rubric'')]) \<and>
   analyze_with_openrouter sample_limits (\<lambda>prompt. Response 503 []) (str ''essay'') (str ''rubric'') =
     (json_dumps fallback_report, [build_prompt (str ''essay'') (str ''rubric'')]) \<and>
   analyze_with_openrouter sample_limits (\<lambda>prompt. Response 304 []) (str ''essay'') (str ''rubric'') =
     (json_dumps fallback_report, [build_prompt (str ''essay'') (str ''rubric'')]) \<and>
   json_loads 4300 900 (json_dumps fallback_report) = Inr fallback_report \<and>
   \<not> raise_for_status 300 \<and> \<not> no_body 300 \<and>
   try_reply sample_limits (Response 300 (completion_body (str ''{}''))) =
     try_reply sample_limits (Response 200 (completion_body (str ''{}'')))\<close>
proof -
  have t: "provider_failed ((\<lambda>prompt. Timeout) (build_prompt (str ''essay'') (str ''rubric'')))"
    by (simp add: provider_failed_def)
  have f: "provider_failed ((\<lambda>prompt. Response 503 []) (build_prompt (str ''essay'') (str ''rubric'')))"
    by (simp add: provider_failed_def raise_for_status_def)
  have n: "provider_failed ((\<lambda>prompt. Response 304 []) (build_prompt (str ''essay'') (str ''rubric'')))"
    by (simp add: provider_failed_def)
  have s: "\<not> raise_for_status 300" "\<not> no_body 300"
    by (simp_all add: raise_for_status_def no_body_def)
  note inst = provider_failure_gives_fallback [where lim = sample_limits and d = 900 and g = 4300
      and status = 300 and body = "completion_body (str ''{}'')"]
  from inst [OF t] inst [OF f] inst [OF n] t f n s
  show ?thesis by simp
qed

subsection \<open>A verdict that does not parse\<close>

lemma loads_open_brace: "json_loads 4300 900 (str ''{'') = Inl JSONDecodeError"
  by code_simp

lemma clean_open_brace: "clean_response (str ''{'') = str ''{''"
proof -
  have "strip (str ''{'') = str ''{''"
    by (rule strip_fixed) (simp add: str_def isspace_def)
  moreover have "\<not> startswith (str ''{'') fence"
    by (simp add: startswith_def fence_chars str_def)
  ultimately show ?thesis using clean_unfenced [of "str ''{''"] by simp
qed

lemma analyze_open_brace:
  "analyze_with_openrouter sample_limits (\<lambda>prompt. Response 200 (completion_body (str ''{''))) a r =
     (str ''{'', [build_prompt a r])"
  using try_reply_completion [OF braces_plain(2), of 200 sample_limits]
  by (simp add: analyze_with_openrouter_def raise_for_status_def no_body_def clean_open_brace
      sample_limits_fields)

lemma digits_run: "list_all is_digit (replicate n 49)"
  by (induction n) (simp_all add: is_digit_def)

lemma int_part_digits:
  assumes "49 \<le> c" "c \<le> 57" "list_all is_digit ds"
  shows "int_part (c # ds) = Some (c # ds, [])"
  using assms takeWhile_digits [of ds "[]"] by (simp add: int_part_def)

lemma match_number_digits:
  assumes "49 \<le> c" "c \<le> 57" "list_all is_digit ds"
  shows "match_number (c # ds) = Some (JInt (int (digits_val (c # ds))), [])"
  using assms(1) int_part_digits [OF assms]
  by (simp add: match_number_def frac_part_def exp_part_def)

lemma int_digits_digits:
  assumes "49 \<le> c" "c \<le> 57" "list_all is_digit ds"
  shows "int_digits (c # ds) = Suc (length ds)"
  using assms(1) int_part_digits [OF assms] by (simp add: int_digits_def)

lemma scan_atom_digits:
  assumes "49 \<le> c" "c \<le> 57" "list_all is_digit ds" "too_long g (Suc (length ds))"
  shows "scan_atom g (c # ds) = Inl ValueError"
  using assms(1,2,4) match_number_digits [OF assms(1-3)] int_digits_digits [OF assms(1-3)]
  by (simp add: scan_atom_def startswith_def str_def)

lemma scan_overlong: "scan_once (Suc (Suc (Suc n))) 4300 (Suc d) overlong_verdict = Inl ValueError"
proof -
  define ds :: "nat list" where "ds = replicate 4300 49"
  have o: "overlong_verdict = 91 # 49 # ds"
  proof -
    have "replicate (Suc 4300) (49 :: nat) = 49 # replicate 4300 49" by (rule replicate_Suc)
    then show ?thesis by (simp add: overlong_verdict_def ds_def)
  qed
  have l: "length ds = 4300" and g: "list_all is_digit ds"
    by (simp_all add: ds_def digits_run)
  have a: "scan_atom 4300 (49 # ds) = Inl ValueError"
    by (rule scan_atom_digits) (simp_all add: g l too_long_def)
  have s: "skip_ws (49 # ds) = 49 # ds"
    by (simp add: skip_ws_def is_ws_def)
  show ?thesis
    unfolding o by (simp add: s a expect_def)
qed

lemma loads_overlong: "json_loads 4300 (Suc d) overlong_verdict = Inl ValueError"
proof -
  have l: "length overlong_verdict = 4302" by (simp add: overlong_verdict_def)
  have f: "2 * length overlong_verdict + 2 = Suc (Suc (Suc 8603))" unfolding l by simp
  have s: "skip_ws overlong_verdict = overlong_verdict"
    by (simp add: overlong_verdict_def skip_ws_def is_ws_def)
  show ?thesis
    unfolding json_loads_def f s scan_overlong by simp
qed

lemma overlong_plain: "list_all plain_char overlong_verdict"
  by (simp add: overlong_verdict_def plain_char_def list_all_iff)

lemma clean_overlong: "clean_response overlong_verdict = overlong_verdict"
proof -
  have "strip overlong_verdict = overlong_verdict"
    by (rule strip_fixed) (simp add: overlong_verdict_def isspace_def)
  moreover have "\<not> startswith overlong_verdict fence"
    by (simp add: startswith_def fence_chars overlong_verdict_def)
  ultimately show ?thesis using clean_unfenced [of overlong_verdict] by simp
qed

lemma analyze_overlong:
  "analyze_with_openrouter sample_limits (\<lambda>prompt. Response 200 (completion_body overlong_verdict)) a r =
     (overlong_verdict, [build_prompt a r])"
  using try_reply_completion [OF overlong_plain, of 200 sample_limits]
  by (simp add: analyze_with_openrouter_def raise_for_status_def no_body_def clean_overlong
      sample_limits_fields)

lemma loads_overlong_sample:
  "json_loads (max_str_digits sample_limits) (verdict_depth sample_limits) overlong_verdict =
     Inl ValueError"
proof -
  have "verdict_depth sample_limits = Suc 899" by (simp add: sample_limits_fields)
  then show ?thesis using loads_overlong [of 899] by (simp add: sample_limits_fields)
qed

text \<open>
  Claim C2, as the specification states it, fails twice. On the JSON branch the verdict
  \<^verbatim>\<open>{\<close> does not parse, and the answer is an error payload, with no criterion and no
  summary, not a degraded Report. On the upload branch the verdict made of an opening
  bracket and 4301 digits is no JSON either, but what \<^verbatim>\<open>json.loads\<close> raises on it under
  the default digit limit is \<^verbatim>\<open>ValueError\<close>, which the parsing step lets through: the
  outer handler answers with the index page and the error, and no Report at all.
\<close>

theorem json_branch_reports_parse_error:
  \<open>json_loads 4300 900 (str ''{'') = Inl JSONDecodeError \<and>
   upload_files sample_limits (\<lambda>prompt. Response 200 (completion_body (str ''{'')))
       (JsonRequest (Some (str ''essay'')) (Some (str ''rubric''))) =
     (Jsonify (JObj [(str ''success'', JBool False),
                     (str ''error'', JStr (str ''Failed to parse AI response'')),
                     (str ''raw_response'', JStr (str ''{''))]),
      [build_prompt (str ''essay'') (str ''rubric'')]) \<and>
   subscript (parse_error (str ''{'')) (str ''summary'') = None \<and>
   subscript (parse_error (str ''{'')) (str ''criteria_breakdown'') = None \<and>
   parse_error (str ''{'') \<noteq> degraded_report (str ''{'') \<and>
   json_loads 4300 900 overlong_verdict = Inl ValueError \<and>
   parse_upload_branch sample_limits overlong_verdict = Inl ValueError \<and>
   upload_files sample_limits (\<lambda>prompt. Response 200 (completion_body overlong_verdict))
       (FormRequest (Some \<lparr>filename = str ''essay.txt'', content = str ''essay''\<rparr>)
                    (Some \<lparr>filename = str ''rubric.txt'', content = str ''rubric''\<rparr>)) =
     (RenderIndexException ValueError, [build_prompt (str ''essay'') (str ''rubric'')])\<close>
  using loads_open_brace analyze_open_brace [of "str ''essay''" "str ''rubric''"]
    loads_overlong_sample analyze_overlong [of "str ''essay''" "str ''rubric''"]
  by (simp add: upload_files_def parse_json_branch_def parse_upload_branch_def parse_error_def
      subscript_def degraded_report_def str_eq_iff str_nonempty sample_limits_fields)

text \<open>
  Claim C2, amended: whatever \<^verbatim>\<open>json.loads\<close> raises on the verdict, the handler answers and
  raises nothing. When it raises \<^verbatim>\<open>JSONDecodeError\<close>, the upload branch renders a degraded
  report: one criterion named Content with score 70 and weight 30 under
  \<^verbatim>\<open>criteria_breakdown\<close>, a non-empty summary naming the parsing limitation, and the first
  500 characters of the verdict under \<^verbatim>\<open>raw_response\<close>; the JSON branch answers with an
  error payload, \<^verbatim>\<open>success\<close> false, carrying the whole verdict. When it raises
  \<^verbatim>\<open>RecursionError\<close> or \<^verbatim>\<open>ValueError\<close>, the outer handler answers: the upload branch with
  the index page and the error, the JSON branch with an error payload.
\<close>

theorem malformed_verdict_outcomes:
  assumes "analyze_with_openrouter lim provider a r = (raw, posted)"
    and "json_loads (max_str_digits lim) (verdict_depth lim) raw = Inl err"
  shows \<open>(err = JSONDecodeError \<longrightarrow>
            (a \<noteq> [] \<and> r \<noteq> [] \<longrightarrow>
               upload_files lim provider (JsonRequest (Some a) (Some r)) =
                 (Jsonify (parse_error raw), posted)) \<and>
            (fa \<noteq> [] \<and> fr \<noteq> [] \<longrightarrow>
               upload_files lim provider
                 (FormRequest (Some \<lparr>filename = fa, content = a\<rparr>)
                              (Some \<lparr>filename = fr, content = r\<rparr>))
               = (RenderResult (degraded_report raw) fa fr, posted))) \<and>
         (err \<noteq> JSONDecodeError \<longrightarrow>
            (a \<noteq> [] \<and> r \<noteq> [] \<longrightarrow>
               upload_files lim provider (JsonRequest (Some a) (Some r)) =
                 (JsonifyException err, posted)) \<and>
            (fa \<noteq> [] \<and> fr \<noteq> [] \<longrightarrow>
               upload_files lim provider
                 (FormRequest (Some \<lparr>filename = fa, content = a\<rparr>)
                              (Some \<lparr>filename = fr, content = r\<rparr>))
               = (RenderIndexException err, posted))) \<and>
         subscript (degraded_report raw) (str ''criteria_breakdown'') =
           Some (JList [JObj [(str ''criterion'', JStr (str ''Content'')),
                              (str ''score_percentage'', JInt 70),
                              (str ''weight'', JInt 30),
                              (str ''strengths'', JList [JStr (str ''Basic content covered'')]),
                              (str ''deficiencies'', JList [JStr (str ''Analysis needed'')]),
                              (str ''recommendations'', JList [JStr (str ''Improve depth'')]),
                              (str ''needs_improvement'', JBool True)]]) \<and>
         subscript (degraded_report raw) (str ''summary'') =
           Some (JStr (str ''Analysis completed but with parsing limitations.'')) \<and>
         str ''Analysis completed but with parsing limitations.'' \<noteq> [] \<and>
         subscript (degraded_report raw) (str ''raw_response'') = Some (JStr (take 500 raw)) \<and>
         subscript (parse_error raw) (str ''success'') = Some (JBool False) \<and>
         subscript (parse_error raw) (str ''raw_response'') = Some (JStr raw)\<close>
  using assms
  by (simp add: upload_files_def parse_json_branch_def parse_upload_branch_def
      degraded_report_def parse_error_def subscript_def str_eq_iff str_nonempty)

theorem malformed_verdict_outcomes_witness:
  \<open>analyze_with_openrouter sample_limits (\<lambda>prompt. Response 200 (completion_body (str ''{'')))
       (str ''essay'') (str ''rubric'') = (str ''{'', [build_prompt (str ''essay'') (str ''rubric'')]) \<and>
   json_loads (max_str_digits sample_limits) (verdict_depth sample_limits) (str ''{'') =
     Inl JSONDecodeError \<and>
   upload_files sample_limits (\<lambda>prompt. Response 200 (completion_body (str ''{'')))
       (FormRequest (Some \<lparr>filename = str ''essay.txt'', content = str ''essay''\<rparr>)
                    (Some \<lparr>filename = str ''rubric.txt'', content = str ''rubric''\<rparr>)) =
     (RenderResult (degraded_report (str ''{'')) (str ''essay.txt'') (str ''rubric.txt''),
      [build_prompt (str ''essay'') (str ''rubric'')]) \<and>
   subscript (degraded_report (str ''{'')) (str ''raw_response'') = Some (JStr (str ''{'')) \<and>
   analyze_with_openrouter sample_limits (\<lambda>prompt. Response 200 (completion_body overlong_verdict))
       (str ''essay'') (str ''rubric'') =
     (overlong_verdict, [build_prompt (str ''essay'') (str ''rubric'')]) \<and>
   json_loads (max_str_digits sample_limits) (verdict_depth sample_limits) overlong_verdict =
     Inl ValueError \<and>
   ValueError \<noteq> JSONDecodeError \<and>
   upload_files sample_limits (\<lambda>prompt. Response 200 (completion_body overlong_verdict))
       (JsonRequest (Some (str ''essay'')) (Some (str ''rubric''))) =
     (JsonifyException ValueError, [build_prompt (str ''essay'') (str ''rubric'')])\<close>
proof -
  have b: "json_loads (max_str_digits sample_limits) (verdict_depth sample_limits) (str ''{'') =
             Inl JSONDecodeError"
    using loads_open_brace by (simp add: sample_limits_fields)
  from malformed_verdict_outcomes [OF analyze_open_brace b,
      of "str ''essay''" "str ''rubric''" "str ''essay.txt''" "str ''rubric.txt''"]
    malformed_verdict_outcomes [OF analyze_overlong loads_overlong_sample,
      of "str ''essay''" "str ''rubric''" "str ''essay.txt''" "str ''rubric.txt''"]
    analyze_open_brace [of "str ''essay''" "str ''rubric''"] b
    analyze_overlong [of "str ''essay''" "str ''rubric''"] loads_overlong_sample
  show ?thesis
    by (simp add: str_nonempty) (simp add: str_def)
qed

subsection \<open>Empty inputs\<close>

text \<open>
  Claim C8 on the two branches. A JSON request with an empty or absent text is answered
  with the validation error, which is neither the parse error nor a success, and nothing
  is posted. An upload of an empty file named \<^verbatim>\<open>essay.txt\<close> is not rejected: the handler
  posts a prompt built from the empty text to the provider.
\<close>

theorem empty_upload_reaches_provider:
  \<open>upload_files lim provider (JsonRequest (Some []) r) = (Jsonify validation_error, []) \<and>
   upload_files lim provider (JsonRequest None r) = (Jsonify validation_error, []) \<and>
   upload_files lim provider (JsonRequest a (Some [])) = (Jsonify validation_error, []) \<and>
   upload_files lim provider (JsonRequest a None) = (Jsonify validation_error, []) \<and>
   validation_error \<noteq> parse_error raw \<and>
   validation_error \<noteq> success_payload analysis_data \<and>
   snd (upload_files lim provider
          (FormRequest (Some \<lparr>filename = str ''essay.txt'', content = []\<rparr>)
                       (Some \<lparr>filename = str ''rubric.txt'', content = str ''rubric''\<rparr>))) =
     [build_prompt [] (str ''rubric'')]\<close>
  by (simp add: upload_files_def validation_error_def parse_error_def success_payload_def
      analyze_with_openrouter_def str_eq_iff str_nonempty Let_def split: option.splits)

end
